theory Spec2Isabelle
  imports Main
begin

section \<open>Index bookkeeping of the programmatic-approach notebook\<close>

text \<open>
  The notebook \<^verbatim>\<open>tutorials/chemistry/1_programmatic_approach.ipynb\<close> is a straight-line
  Python script. Its own logic is the preparation of the index lists handed to the operator
  library; everything else is a call into that library. Python integers are unbounded, so
  indices and counts are \<^typ>\<open>int\<close>; Python's \<^verbatim>\<open>%\<close> on integers is floored, as is
  \<^term>\<open>(mod)\<close> on \<^typ>\<open>int\<close>, except that a zero divisor raises.
\<close>

datatype 'x exn = ZeroDivisionError | LibraryError 'x

text \<open>
  \<^verbatim>\<open>[x % molecule.num_orbitals for x in xs]\<close>: the comprehension evaluates
  \<^verbatim>\<open>%\<close> once per element, so it raises exactly when the list is not empty and the
  divisor is zero.
\<close>

definition convert_negative_idx :: "int \<Rightarrow> int list \<Rightarrow> 'x exn + int list" where
  "convert_negative_idx n xs =
     (if xs \<noteq> [] \<and> n = 0 then Inl ZeroDivisionError
      else Inr (map (\<lambda>x. x mod n) xs))"

text \<open>
  Lines 256 to 261 of the notebook, from the raw lists to the lists handed to the library:
  \<^verbatim>\<open>
  remove_list = [x % molecule.num_orbitals for x in remove_list]
  freeze_list = [x % molecule.num_orbitals for x in freeze_list]
  remove_list = [x - len(freeze_list) for x in remove_list]
  remove_list += [x + molecule.num_orbitals - len(freeze_list)  for x in remove_list]
  freeze_list += [x + molecule.num_orbitals for x in freeze_list]
  \<close>
  The result is the pair (freeze list, remove list).
\<close>

definition prepare_full_idx ::
  "int \<Rightarrow> int list \<Rightarrow> int list \<Rightarrow> 'x exn + (int list \<times> int list)" where
  "prepare_full_idx n fl rl =
     (case convert_negative_idx n rl of
        Inl e \<Rightarrow> Inl e
      | Inr rl1 \<Rightarrow>
          (case convert_negative_idx n fl of
             Inl e \<Rightarrow> Inl e
           | Inr fl1 \<Rightarrow>
               (let rl2 = map (\<lambda>x. x - int (length fl1)) rl1;
                    rl3 = rl2 @ map (\<lambda>x. x + n - int (length fl1)) rl2;
                    fl2 = fl1 @ map (\<lambda>x. x + n) fl1
                in Inr (fl2, rl3))))"

text \<open>An index list is in range for an operator over \<open>m\<close> modes.\<close>

definition in_range :: "int \<Rightarrow> int list \<Rightarrow> bool" where
  "in_range m xs = list_all (\<lambda>x. 0 \<le> x \<and> x < m) xs"

text \<open>The raw entries the notebook accepts: end-relative or absolute orbital indices.\<close>

definition raw_idx :: "int \<Rightarrow> int list \<Rightarrow> bool" where
  "raw_idx n xs = list_all (\<lambda>x. - n \<le> x \<and> x < n) xs"

text \<open>
  Modelled from the spec: the renumbering of the modes by the library's
  \<^verbatim>\<open>fermion_mode_freezing\<close>, which is not part of the notebook. Freezing removes the
  frozen modes from the operator and the modes left keep their order, so the mode with
  original index \<open>i\<close> has, in the post-freeze numbering, the index \<open>i\<close> less the number of
  frozen modes below it.
\<close>

definition post_freeze_position :: "int list \<Rightarrow> int \<Rightarrow> int" where
  "post_freeze_position frozen i = i - int (length (filter (\<lambda>j. j < i) (remdups frozen)))"

section \<open>The delegated library\<close>

text \<open>
  The chemistry driver, the operator library and the algorithm framework are external. Their
  objects (integral tensors, operators, solvers, results) are opaque values of type \<open>'v\<close>,
  floating-point numbers are values of type \<open>'e\<close>, and every call either returns or raises.
  The molecule is the object \<^verbatim>\<open>driver.run()\<close> returns; the notebook reads these attributes.
\<close>

record ('v, 'e) molecule =
  num_orbitals :: int
  num_alpha :: int
  num_beta :: int
  one_body_integrals :: 'v
  two_body_integrals :: 'v
  nuclear_repulsion_energy :: 'e
  hf_energy :: 'e

datatype units_type = ANGSTROM | BOHR

text \<open>
  One field per call the notebook makes, with the arguments the notebook passes. The float
  constants \<^verbatim>\<open>threshold=0.00000001\<close> of \<^verbatim>\<open>mapping\<close> and \<^verbatim>\<open>10**-10\<close> of
  \<^verbatim>\<open>chop\<close> are fixed in the source and belong to the call. \<^verbatim>\<open>chop\<close> changes the operator
  in place; its field returns the operator after the change. \<open>eigenvalue_real\<close> and
  \<open>optimal_point\<close> are the attribute reads \<^verbatim>\<open>.eigenvalue.real\<close> and
  \<^verbatim>\<open>.optimal_point\<close> of a result object.
\<close>

record ('v, 'e, 'x) library =
  PySCFDriver :: "string \<Rightarrow> units_type \<Rightarrow> int \<Rightarrow> int \<Rightarrow> string \<Rightarrow> 'x exn + 'v"
  driver_run :: "'v \<Rightarrow> 'x exn + ('v, 'e) molecule"
  FermionicOperator :: "'v \<Rightarrow> 'v \<Rightarrow> 'x exn + 'v"
  fermion_mode_freezing :: "'v \<Rightarrow> int list \<Rightarrow> 'x exn + 'v \<times> 'e"
  fermion_mode_elimination :: "'v \<Rightarrow> int list \<Rightarrow> 'x exn + 'v"
  mapping :: "'v \<Rightarrow> string \<Rightarrow> 'x exn + 'v"
  two_qubit_reduction :: "'v \<Rightarrow> int \<Rightarrow> 'x exn + 'v"
  chop :: "'v \<Rightarrow> 'x exn + 'v"
  print_details :: "'v \<Rightarrow> 'x exn + string"
  NumPyMinimumEigensolver :: "'v \<Rightarrow> 'x exn + 'v"
  eigensolver_run :: "'v \<Rightarrow> 'x exn + 'v"
  eigenvalue_real :: "'v \<Rightarrow> 'e"
  get_backend :: "string \<Rightarrow> 'x exn + 'v"
  COBYLA :: "int \<Rightarrow> 'x exn + 'v"
  HartreeFock :: "int \<Rightarrow> int \<Rightarrow> string \<Rightarrow> bool \<Rightarrow> 'x exn + 'v"
  UCCSD :: "int \<Rightarrow> int \<Rightarrow> int list \<Rightarrow> int list \<Rightarrow> 'v \<Rightarrow> string \<Rightarrow> bool \<Rightarrow> int
              \<Rightarrow> 'x exn + 'v"
  VQE :: "'v \<Rightarrow> 'v \<Rightarrow> 'v \<Rightarrow> 'x exn + 'v"
  QuantumInstance :: "'v \<Rightarrow> 'x exn + 'v"
  vqe_run :: "'v \<Rightarrow> 'v \<Rightarrow> 'x exn + 'v"
  optimal_point :: "'v \<Rightarrow> 'v"

section \<open>Runs: the calls made and the outcome\<close>

text \<open>
  A run of a piece of the notebook is the list of library calls it made, each with the
  exception it raised if any, and the outcome: the exception that ended the run, or the
  value computed. The notebook has no \<^verbatim>\<open>try\<close> statement, so a statement that raises
  ends the run and the statements after it are not executed.
\<close>

datatype 'v call =
    Call_PySCFDriver string units_type int int string
  | Call_driver_run 'v
  | Call_FermionicOperator 'v 'v
  | Call_fermion_mode_freezing 'v "int list"
  | Call_fermion_mode_elimination 'v "int list"
  | Call_mapping 'v string
  | Call_two_qubit_reduction 'v int
  | Call_chop 'v
  | Call_print_details 'v
  | Call_NumPyMinimumEigensolver 'v
  | Call_eigensolver_run 'v
  | Call_get_backend string
  | Call_COBYLA int
  | Call_HartreeFock int int string bool
  | Call_UCCSD int int "int list" "int list" 'v string bool int
  | Call_VQE 'v 'v 'v
  | Call_QuantumInstance 'v
  | Call_vqe_run 'v 'v

type_synonym ('v, 'x) event = "'v call \<times> 'x exn option"

type_synonym ('a, 'v, 'x) run = "('v, 'x) event list \<times> ('x exn + 'a)"

definition returns :: "'a \<Rightarrow> ('a, 'v, 'x) run" where
  "returns a = ([], Inr a)"

text \<open>A computation of the notebook itself: no library call is made.\<close>

definition own :: "'x exn + 'a \<Rightarrow> ('a, 'v, 'x) run" where
  "own r = ([], r)"

text \<open>The exception an outcome carries, if any.\<close>

definition raised :: "'x exn + 'a \<Rightarrow> 'x exn option" where
  "raised r = (case r of Inl e \<Rightarrow> Some e | Inr _ \<Rightarrow> None)"

text \<open>A library call: \<open>r\<close> is what the library answered to the call \<open>c\<close>.\<close>

definition invoke :: "'v call \<Rightarrow> 'x exn + 'a \<Rightarrow> ('a, 'v, 'x) run" where
  "invoke c r = ([(c, raised r)], r)"

text \<open>One statement after another.\<close>

definition then_do :: "('a, 'v, 'x) run \<Rightarrow> ('a \<Rightarrow> ('b, 'v, 'x) run) \<Rightarrow> ('b, 'v, 'x) run" where
  "then_do m k =
     (case m of
        (t, Inl e) \<Rightarrow> (t, Inl e)
      | (t, Inr a) \<Rightarrow> (case k a of (t', r) \<Rightarrow> (t @ t', r)))"

text \<open>
  A run is fail-stop when the first call that raised is the last call made and its exception
  is the outcome of the run.
\<close>

fun fail_stop :: "('v, 'x) event list \<Rightarrow> 'x exn option \<Rightarrow> bool" where
  "fail_stop [] r = True"
| "fail_stop ((c, None) # t) r = fail_stop t r"
| "fail_stop ((c, Some e) # t) r = (t = [] \<and> r = Some e)"

definition stops :: "('a, 'v, 'x) run \<Rightarrow> bool" where
  "stops m = fail_stop (fst m) (raised (snd m))"

text \<open>The calls of the reduction: construction, freezing, elimination.\<close>

fun reduction_call :: "'v call \<Rightarrow> bool" where
  "reduction_call (Call_FermionicOperator a b) = True"
| "reduction_call (Call_fermion_mode_freezing f l) = True"
| "reduction_call (Call_fermion_mode_elimination f l) = True"
| "reduction_call c = False"

section \<open>The cells of the notebook\<close>

text \<open>
  Cell 2:
  \<^verbatim>\<open>
  driver = PySCFDriver(atom='Li .0 .0 .0; H .0 .0 1.6', unit=UnitsType.ANGSTROM,
                       charge=0, spin=0, basis='sto3g')
  molecule = driver.run()
  \<close>
\<close>

definition define_molecule :: "('v, 'e, 'x) library \<Rightarrow> (('v, 'e) molecule, 'v, 'x) run" where
  "define_molecule lib =
     then_do (invoke (Call_PySCFDriver ''Li .0 .0 .0; H .0 .0 1.6'' ANGSTROM 0 0 ''sto3g'')
                (PySCFDriver lib ''Li .0 .0 .0; H .0 .0 1.6'' ANGSTROM 0 0 ''sto3g''))
       (\<lambda>driver. invoke (Call_driver_run driver) (driver_run lib driver))"

text \<open>
  Cell 3 binds the variables of the notebook. \<open>freeze_list\<close>, \<open>remove_list\<close> and
  \<open>map_type\<close> are literals in the source (\<open>[0]\<close>, \<open>[-3, -2]\<close>, \<open>'parity'\<close>) and are
  inputs here. The variable \<^verbatim>\<open>nuclear_repulsion_energy\<close> is a copy of the molecule's
  attribute of that name and is read from the molecule.
  \<^verbatim>\<open>
  h1 = molecule.one_body_integrals
  h2 = molecule.two_body_integrals
  nuclear_repulsion_energy = molecule.nuclear_repulsion_energy
  num_particles = molecule.num_alpha + molecule.num_beta
  num_spin_orbitals = molecule.num_orbitals * 2
  \<close>
\<close>

record ('v, 'e) setup_vars =
  molecule :: "('v, 'e) molecule"
  freeze_list :: "int list"
  remove_list :: "int list"
  map_type :: string
  h1 :: 'v
  h2 :: 'v
  num_particles :: int
  num_spin_orbitals :: int

definition molecule_vars :: "('v, 'e) molecule \<Rightarrow> int list \<Rightarrow> int list \<Rightarrow> string \<Rightarrow> ('v, 'e) setup_vars" where
  "molecule_vars mol fl rl mt =
     \<lparr> molecule = mol, freeze_list = fl, remove_list = rl, map_type = mt,
       h1 = one_body_integrals mol, h2 = two_body_integrals mol,
       num_particles = num_alpha mol + num_beta mol,
       num_spin_orbitals = num_orbitals mol * 2 \<rparr>"

text \<open>The variables cell 4 adds before the reduction, and the one it adds after it.\<close>

record ('v, 'e) reduction_vars = "('v, 'e) setup_vars" +
  energy_shift :: 'e
  qubit_reduction :: bool
  ferOp :: 'v

record ('v, 'e) hamiltonian_vars = "('v, 'e) reduction_vars" +
  qubitOp :: 'v

text \<open>
  Lines 256 to 261 as the cell executes them: the names \<open>freeze_list\<close> and
  \<open>remove_list\<close> are read and then rebound to the prepared lists; \<open>num_orbitals\<close> is read
  from the molecule; no other variable is read or written.
\<close>

definition rebind_full_idx :: "('v, 'e) setup_vars \<Rightarrow> 'x exn + ('v, 'e) setup_vars" where
  "rebind_full_idx s =
     (case prepare_full_idx (num_orbitals (molecule s)) (freeze_list s) (remove_list s) of
        Inl e \<Rightarrow> Inl e
      | Inr (fl, rl) \<Rightarrow> Inr (s \<lparr> freeze_list := fl, remove_list := rl \<rparr>))"

text \<open>
  Cell 4, up to the construction of the fermionic operator:
  \<^verbatim>\<open>
  (lines 256 to 261, see rebind_full_idx)
  energy_shift = 0.0
  qubit_reduction = True if map_type == 'parity' else False
  ferOp = FermionicOperator(h1=h1, h2=h2)
  \<close>
\<close>

definition fermionic_hamiltonian ::
  "('v, 'e::zero, 'x) library \<Rightarrow> ('v, 'e) setup_vars \<Rightarrow> (('v, 'e) reduction_vars, 'v, 'x) run" where
  "fermionic_hamiltonian lib s0 =
     then_do (own (rebind_full_idx s0))
       (\<lambda>s.
     then_do (invoke (Call_FermionicOperator (h1 s) (h2 s)) (FermionicOperator lib (h1 s) (h2 s)))
       (\<lambda>f.
     returns \<lparr> molecule = molecule s, freeze_list = freeze_list s,
               remove_list = remove_list s,
               map_type = map_type s, h1 = h1 s, h2 = h2 s,
               num_particles = num_particles s, num_spin_orbitals = num_spin_orbitals s,
               energy_shift = 0,
               qubit_reduction = (if map_type s = ''parity'' then True else False),
               ferOp = f \<rparr>))"

text \<open>
  \<^verbatim>\<open>
  if len(freeze_list) > 0:
      ferOp, energy_shift = ferOp.fermion_mode_freezing(freeze_list)
      num_spin_orbitals -= len(freeze_list)
      num_particles -= len(freeze_list)
  \<close>
\<close>

definition freezing_stage ::
  "('v, 'e, 'x) library \<Rightarrow> ('v, 'e) reduction_vars \<Rightarrow> (('v, 'e) reduction_vars, 'v, 'x) run" where
  "freezing_stage lib s =
     (if length (freeze_list s) > 0 then
        then_do (invoke (Call_fermion_mode_freezing (ferOp s) (freeze_list s))
                   (fermion_mode_freezing lib (ferOp s) (freeze_list s)))
          (\<lambda>(f, shift).
             returns (s \<lparr> ferOp := f, energy_shift := shift,
                          num_spin_orbitals := num_spin_orbitals s - int (length (freeze_list s)),
                          num_particles := num_particles s - int (length (freeze_list s)) \<rparr>))
      else returns s)"

text \<open>
  \<^verbatim>\<open>
  if len(remove_list) > 0:
      ferOp = ferOp.fermion_mode_elimination(remove_list)
      num_spin_orbitals -= len(remove_list)
  \<close>
\<close>

definition elimination_stage ::
  "('v, 'e, 'x) library \<Rightarrow> ('v, 'e) reduction_vars \<Rightarrow> (('v, 'e) reduction_vars, 'v, 'x) run" where
  "elimination_stage lib s =
     (if length (remove_list s) > 0 then
        then_do (invoke (Call_fermion_mode_elimination (ferOp s) (remove_list s))
                   (fermion_mode_elimination lib (ferOp s) (remove_list s)))
          (\<lambda>f.
             returns (s \<lparr> ferOp := f,
                          num_spin_orbitals := num_spin_orbitals s - int (length (remove_list s)) \<rparr>))
      else returns s)"

text \<open>
  \<^verbatim>\<open>
  qubitOp = ferOp.mapping(map_type=map_type, threshold=0.00000001)
  qubitOp = Z2Symmetries.two_qubit_reduction(qubitOp, num_particles) if qubit_reduction else qubitOp
  qubitOp.chop(10**-10)
  print(qubitOp.print_details())
  print(qubitOp)
  \<close>
  What is printed is not part of the state.
\<close>

definition qubit_mapping ::
  "('v, 'e, 'x) library \<Rightarrow> ('v, 'e) reduction_vars \<Rightarrow> (('v, 'e) hamiltonian_vars, 'v, 'x) run" where
  "qubit_mapping lib s =
     then_do (invoke (Call_mapping (ferOp s) (map_type s)) (mapping lib (ferOp s) (map_type s)))
       (\<lambda>q.
     then_do (if qubit_reduction s
              then invoke (Call_two_qubit_reduction q (num_particles s))
                     (two_qubit_reduction lib q (num_particles s))
              else returns q)
       (\<lambda>q.
     then_do (invoke (Call_chop q) (chop lib q))
       (\<lambda>q.
     then_do (invoke (Call_print_details q) (print_details lib q))
       (\<lambda>_.
     returns \<lparr> molecule = molecule s, freeze_list = freeze_list s, remove_list = remove_list s,
               map_type = map_type s, h1 = h1 s, h2 = h2 s,
               num_particles = num_particles s, num_spin_orbitals = num_spin_orbitals s,
               energy_shift = energy_shift s, qubit_reduction = qubit_reduction s,
               ferOp = ferOp s, qubitOp = q \<rparr>))))"

text \<open>Cell 4 as a whole: lines 254 to 282.\<close>

definition prepare_qubit_hamiltonian ::
  "('v, 'e::zero, 'x) library \<Rightarrow> ('v, 'e) setup_vars \<Rightarrow> (('v, 'e) hamiltonian_vars, 'v, 'x) run" where
  "prepare_qubit_hamiltonian lib s =
     then_do (fermionic_hamiltonian lib s)
       (\<lambda>s1. then_do (freezing_stage lib s1)
       (\<lambda>s2. then_do (elimination_stage lib s2)
       (\<lambda>s3. qubit_mapping lib s3)))"

text \<open>
  Cell 5:
  \<^verbatim>\<open>
  exact_eigensolver = NumPyMinimumEigensolver(qubitOp)
  ret = exact_eigensolver.run()
  \<close>
  and the two numbers it prints, \<^verbatim>\<open>ret.eigenvalue.real\<close> and
  \<^verbatim>\<open>ret.eigenvalue.real + energy_shift + nuclear_repulsion_energy\<close>.
\<close>

definition exact_reference ::
  "('v, 'e::plus, 'x) library \<Rightarrow> ('v, 'e) hamiltonian_vars \<Rightarrow> ('e \<times> 'e, 'v, 'x) run" where
  "exact_reference lib s =
     then_do (invoke (Call_NumPyMinimumEigensolver (qubitOp s))
                (NumPyMinimumEigensolver lib (qubitOp s)))
       (\<lambda>exact_eigensolver.
     then_do (invoke (Call_eigensolver_run exact_eigensolver)
                (eigensolver_run lib exact_eigensolver))
       (\<lambda>ret.
     returns (eigenvalue_real lib ret,
              eigenvalue_real lib ret + energy_shift s
                + nuclear_repulsion_energy (molecule s))))"

text \<open>
  Cells 7 to 9:
  \<^verbatim>\<open>
  backend = Aer.get_backend('statevector_simulator')
  max_eval = 200
  cobyla = COBYLA(maxiter=max_eval)
  HF_state = HartreeFock(num_spin_orbitals, num_particles, map_type, qubit_reduction)
  var_form = UCCSD(num_orbitals=num_spin_orbitals, num_particles=num_particles,
                   active_occupied=[0], active_unoccupied=[0, 1],
                   initial_state=HF_state, qubit_mapping=map_type,
                   two_qubit_reduction=qubit_reduction, num_time_slices=1)
  vqe = VQE(qubitOp, var_form, cobyla)
  quantum_instance = QuantumInstance(backend=backend)
  results = vqe.run(quantum_instance)
  \<close>
  and what cell 9 prints: \<^verbatim>\<open>results.eigenvalue.real\<close>, the same plus the energy shift and
  the nuclear repulsion energy, and \<^verbatim>\<open>results.optimal_point\<close>.
\<close>

definition variational ::
  "('v, 'e::plus, 'x) library \<Rightarrow> ('v, 'e) hamiltonian_vars \<Rightarrow> ('e \<times> 'e \<times> 'v, 'v, 'x) run" where
  "variational lib s =
     then_do (invoke (Call_get_backend ''statevector_simulator'')
                (get_backend lib ''statevector_simulator''))
       (\<lambda>backend.
     then_do (invoke (Call_COBYLA 200) (COBYLA lib 200))
       (\<lambda>cobyla.
     then_do (invoke (Call_HartreeFock (num_spin_orbitals s) (num_particles s) (map_type s)
                        (qubit_reduction s))
                (HartreeFock lib (num_spin_orbitals s) (num_particles s) (map_type s)
                        (qubit_reduction s)))
       (\<lambda>HF_state.
     then_do (invoke (Call_UCCSD (num_spin_orbitals s) (num_particles s) [0] [0, 1] HF_state
                        (map_type s) (qubit_reduction s) 1)
                (UCCSD lib (num_spin_orbitals s) (num_particles s) [0] [0, 1] HF_state
                        (map_type s) (qubit_reduction s) 1))
       (\<lambda>var_form.
     then_do (invoke (Call_VQE (qubitOp s) var_form cobyla) (VQE lib (qubitOp s) var_form cobyla))
       (\<lambda>vqe.
     then_do (invoke (Call_QuantumInstance backend) (QuantumInstance lib backend))
       (\<lambda>quantum_instance.
     then_do (invoke (Call_vqe_run vqe quantum_instance) (vqe_run lib vqe quantum_instance))
       (\<lambda>results.
     returns (eigenvalue_real lib results,
              eigenvalue_real lib results + energy_shift s
                + nuclear_repulsion_energy (molecule s),
              optimal_point lib results))))))))"

text \<open>The notebook, run from the first cell to the last.\<close>

record ('v, 'e) report =
  hamiltonian :: "('v, 'e) hamiltonian_vars"
  exact_energy :: 'e
  exact_total_energy :: 'e
  vqe_energy :: 'e
  vqe_total_energy :: 'e
  parameters :: 'v

definition notebook ::
  "('v, 'e::{zero, plus}, 'x) library \<Rightarrow> int list \<Rightarrow> int list \<Rightarrow> string
     \<Rightarrow> (('v, 'e) report, 'v, 'x) run" where
  "notebook lib fl rl mt =
     then_do (define_molecule lib)
       (\<lambda>mol.
     then_do (prepare_qubit_hamiltonian lib (molecule_vars mol fl rl mt))
       (\<lambda>s.
     then_do (exact_reference lib s)
       (\<lambda>(e, total).
     then_do (variational lib s)
       (\<lambda>(e', total', point).
     returns \<lparr> hamiltonian = s, exact_energy = e, exact_total_energy = total,
               vqe_energy = e', vqe_total_energy = total', parameters = point \<rparr>))))"

section \<open>A library double\<close>

text \<open>
  A stand-in for the library, to run the notebook on: an operator is represented by its
  number of modes or qubits, an energy by an integer, and no call raises. The molecule has
  the counts the notebook prints for LiH: four electrons, six orbitals.
\<close>

definition lih :: "(nat, int) molecule" where
  "lih = \<lparr> num_orbitals = 6, num_alpha = 2, num_beta = 2,
           one_body_integrals = 12, two_body_integrals = 12,
           nuclear_repulsion_energy = 1, hf_energy = - 8 \<rparr>"

definition mode_counting :: "(nat, int, string) library" where
  "mode_counting =
     \<lparr> PySCFDriver = (\<lambda>atom unit charge spin basis. Inr 0),
       driver_run = (\<lambda>driver. Inr lih),
       FermionicOperator = (\<lambda>h1 h2. Inr h1),
       fermion_mode_freezing = (\<lambda>f l. Inr (f - length l, - 7)),
       fermion_mode_elimination = (\<lambda>f l. Inr (f - length l)),
       mapping = (\<lambda>f mt. Inr f),
       two_qubit_reduction = (\<lambda>q np. Inr (q - 2)),
       chop = (\<lambda>q. Inr q),
       print_details = (\<lambda>q. Inr []),
       NumPyMinimumEigensolver = (\<lambda>q. Inr q),
       eigensolver_run = (\<lambda>solver. Inr 2),
       eigenvalue_real = (\<lambda>result. - int result),
       get_backend = (\<lambda>name. Inr 0),
       COBYLA = (\<lambda>maxiter. Inr 0),
       HartreeFock = (\<lambda>n p mt r. Inr 0),
       UCCSD = (\<lambda>n p occ unocc init mt r slices. Inr 0),
       VQE = (\<lambda>q var_form optimizer. Inr q),
       QuantumInstance = (\<lambda>backend. Inr 0),
       vqe_run = (\<lambda>vqe qi. Inr 1),
       optimal_point = (\<lambda>result. 0) \<rparr>"

text \<open>The variables of the notebook as its cell 3 leaves them, on that molecule.\<close>

definition notebook_vars :: "(nat, int) setup_vars" where
  "notebook_vars = molecule_vars lih [0] [-3, -2] ''parity''"

text \<open>The same library, with an elimination that raises.\<close>

definition elimination_raising :: "(nat, int, string) library" where
  "elimination_raising =
     mode_counting \<lparr> fermion_mode_elimination := (\<lambda>f l. Inl (LibraryError ''elimination'')) \<rparr>"

section \<open>Properties of the index preparation\<close>

lemma raw_idx_pos: "raw_idx n xs \<Longrightarrow> xs \<noteq> [] \<Longrightarrow> 0 < n"
  by (cases xs) (auto simp: raw_idx_def)

lemma raw_idx_mod:
  fixes n x :: int
  assumes "- n \<le> x" and "x < n"
  shows "x mod n = (if x < 0 then n + x else x)"
proof (cases "x < 0")
  case True
  with assms have "0 \<le> x + n" and "x + n < n" by linarith+
  then have "(x + n) mod n = x + n" by (rule mod_pos_pos_trivial)
  moreover have "(x + n) mod n = x mod n" by (rule mod_add_self2)
  ultimately show ?thesis using True by (simp add: add.commute)
next
  case False
  with assms show ?thesis by simp
qed

text \<open>
  C2. With \<open>n\<close> orbitals, every raw index \<open>x\<close> with \<open>-n \<le> x < n\<close> is replaced by
  \<open>x mod n\<close>: a negative index \<open>-k\<close> becomes \<open>n - k\<close>, a non-negative one is unchanged.
\<close>

theorem convert_negative_idx_offset_from_end:
  assumes "raw_idx n xs"
  shows "convert_negative_idx n xs = Inr (map (\<lambda>x. x mod n) xs)
       \<and> map (\<lambda>x. x mod n) xs = map (\<lambda>x. if x < 0 then n + x else x) xs"
proof
  show "convert_negative_idx n xs = Inr (map (\<lambda>x. x mod n) xs)"
    using raw_idx_pos [OF assms] by (auto simp: convert_negative_idx_def)
  show "map (\<lambda>x. x mod n) xs = map (\<lambda>x. if x < 0 then n + x else x) xs"
    using assms by (auto simp: raw_idx_def list_all_iff raw_idx_mod)
qed

theorem convert_negative_idx_offset_from_end_witness:
  "raw_idx 6 [-3, -2, 0, 5, -6]
   \<and> convert_negative_idx 6 [-3, -2, 0, 5, -6] = (Inr [3, 4, 0, 5, 0] :: unit exn + int list)"
  using convert_negative_idx_offset_from_end [of 6 "[-3, -2, 0, 5, -6]"]
  by (simp add: raw_idx_def)

text \<open>
  The prepared lists depend on the state only through \<open>freeze_list\<close>, \<open>remove_list\<close>
  and the molecule's \<open>num_orbitals\<close>: two states that agree on these three get the same
  lists, or the same exception.
\<close>

lemma rebind_full_idx_same_idx:
  fixes s1 s2 :: "('v, 'e) setup_vars"
  assumes "num_orbitals (molecule s1) = num_orbitals (molecule s2)"
      and "freeze_list s1 = freeze_list s2" and "remove_list s1 = remove_list s2"
  shows "(case (rebind_full_idx s1 :: 'x exn + ('v, 'e) setup_vars,
                rebind_full_idx s2 :: 'x exn + ('v, 'e) setup_vars) of
            (Inr s1', Inr s2') \<Rightarrow> freeze_list s1' = freeze_list s2'
                                  \<and> remove_list s1' = remove_list s2'
          | (Inl e1, Inl e2) \<Rightarrow> e1 = e2
          | _ \<Rightarrow> False)"
  using assms by (auto simp: rebind_full_idx_def split: sum.splits prod.splits)

text \<open>
  C3. Two runs of lines 256 to 261, from any two states of the notebook in which
  \<open>freeze_list = [0]\<close>, \<open>remove_list = [-3, -2]\<close> and the molecule has six orbitals,
  whatever the integrals, the mapping type and the counts are in each, both return, rebind
  the two names to the same lists, \<open>[0, 6]\<close> and \<open>[2, 3, 7, 8]\<close>, and change nothing else.
\<close>

theorem full_idx_reproducible:
  fixes s1 s2 :: "('v, 'e) setup_vars"
  assumes "freeze_list s1 = [0]" and "remove_list s1 = [-3, -2]"
      and "num_orbitals (molecule s1) = 6"
      and "freeze_list s2 = [0]" and "remove_list s2 = [-3, -2]"
      and "num_orbitals (molecule s2) = 6"
  shows "(rebind_full_idx s1 :: 'x exn + ('v, 'e) setup_vars)
           = Inr (s1 \<lparr> freeze_list := [0, 6], remove_list := [2, 3, 7, 8] \<rparr>)
       \<and> (rebind_full_idx s2 :: 'x exn + ('v, 'e) setup_vars)
           = Inr (s2 \<lparr> freeze_list := [0, 6], remove_list := [2, 3, 7, 8] \<rparr>)
       \<and> map_sum id freeze_list (rebind_full_idx s1 :: 'x exn + ('v, 'e) setup_vars)
           = map_sum id freeze_list (rebind_full_idx s2 :: 'x exn + ('v, 'e) setup_vars)
       \<and> map_sum id remove_list (rebind_full_idx s1 :: 'x exn + ('v, 'e) setup_vars)
           = map_sum id remove_list (rebind_full_idx s2 :: 'x exn + ('v, 'e) setup_vars)"
  using assms
  by (simp add: rebind_full_idx_def prepare_full_idx_def convert_negative_idx_def)

theorem full_idx_reproducible_witness:
  "map_type notebook_vars \<noteq> map_type (molecule_vars (lih \<lparr> num_alpha := 1 \<rparr>) [0] [-3, -2] ''bravyi_kitaev'')
   \<and> num_particles notebook_vars
        \<noteq> num_particles (molecule_vars (lih \<lparr> num_alpha := 1 \<rparr>) [0] [-3, -2] ''bravyi_kitaev'')
   \<and> map_sum id freeze_list (rebind_full_idx notebook_vars :: unit exn + (nat, int) setup_vars)
        = Inr [0, 6]
   \<and> map_sum id freeze_list
        (rebind_full_idx (molecule_vars (lih \<lparr> num_alpha := 1 \<rparr>) [0] [-3, -2] ''bravyi_kitaev'')
           :: unit exn + (nat, int) setup_vars)
        = Inr [0, 6]
   \<and> map_sum id remove_list (rebind_full_idx notebook_vars :: unit exn + (nat, int) setup_vars)
        = Inr [2, 3, 7, 8]
   \<and> map_sum id remove_list
        (rebind_full_idx (molecule_vars (lih \<lparr> num_alpha := 1 \<rparr>) [0] [-3, -2] ''bravyi_kitaev'')
           :: unit exn + (nat, int) setup_vars)
        = Inr [2, 3, 7, 8]"
proof -
  let ?s1 = "notebook_vars"
  let ?s2 = "molecule_vars (lih \<lparr> num_alpha := 1 \<rparr>) [0] [-3, -2] ''bravyi_kitaev''"
  have 1: "freeze_list ?s1 = [0]" "remove_list ?s1 = [-3, -2]" "num_orbitals (molecule ?s1) = 6"
    and 2: "freeze_list ?s2 = [0]" "remove_list ?s2 = [-3, -2]" "num_orbitals (molecule ?s2) = 6"
    and d: "map_type ?s1 \<noteq> map_type ?s2" "num_particles ?s1 \<noteq> num_particles ?s2"
    by (simp_all add: notebook_vars_def molecule_vars_def lih_def)
  have "(rebind_full_idx ?s1 :: unit exn + (nat, int) setup_vars)
           = Inr (?s1 \<lparr> freeze_list := [0, 6], remove_list := [2, 3, 7, 8] \<rparr>)
       \<and> (rebind_full_idx ?s2 :: unit exn + (nat, int) setup_vars)
           = Inr (?s2 \<lparr> freeze_list := [0, 6], remove_list := [2, 3, 7, 8] \<rparr>)
       \<and> map_sum id freeze_list (rebind_full_idx ?s1 :: unit exn + (nat, int) setup_vars)
           = map_sum id freeze_list (rebind_full_idx ?s2 :: unit exn + (nat, int) setup_vars)
       \<and> map_sum id remove_list (rebind_full_idx ?s1 :: unit exn + (nat, int) setup_vars)
           = map_sum id remove_list (rebind_full_idx ?s2 :: unit exn + (nat, int) setup_vars)"
    by (rule full_idx_reproducible [OF 1 2])
  with d show ?thesis
    by simp
qed

text \<open>
  The names are rebound, so executing the lines once more in the same session starts from
  the prepared lists, which are other inputs, and prepares other lists.
\<close>

lemma rebind_full_idx_again:
  assumes "freeze_list s = [0, 6]" and "remove_list s = [2, 3, 7, 8]"
      and "num_orbitals (molecule s) = 6"
  shows "rebind_full_idx s
           = Inr (s \<lparr> freeze_list := [0, 0, 6, 6], remove_list := [0, 1, - 1, 0, 4, 5, 3, 4] \<rparr>)"
  using assms
  by (simp add: rebind_full_idx_def prepare_full_idx_def convert_negative_idx_def)

lemma prepare_full_idx_Inr:
  assumes "n \<noteq> 0 \<or> (fl = [] \<and> rl = [])"
  shows "prepare_full_idx n fl rl =
           Inr (map (\<lambda>x. x mod n) fl @ map (\<lambda>x. x mod n + n) fl,
                map (\<lambda>x. x mod n - int (length fl)) rl
                  @ map (\<lambda>x. x mod n - int (length fl) + n - int (length fl)) rl)"
  using assms
  by (auto simp: prepare_full_idx_def convert_negative_idx_def Let_def comp_def)

lemma prepare_full_idx_Inl:
  assumes "n = 0" and "fl \<noteq> [] \<or> rl \<noteq> []"
  shows "prepare_full_idx n fl rl = Inl ZeroDivisionError"
  using assms
  by (auto simp: prepare_full_idx_def convert_negative_idx_def)

lemma prepare_full_idx_lengths:
  assumes "prepare_full_idx n fl rl = Inr (fl', rl')"
  shows "length fl' = 2 * length fl" and "length rl' = 2 * length rl"
  using assms
  by (auto simp: prepare_full_idx_def convert_negative_idx_def Let_def
           split: if_splits sum.splits)

lemma freeze_idx_in_range:
  assumes "0 < n"
  shows "in_range (2 * n) (map (\<lambda>x. x mod n) fl @ map (\<lambda>x. x mod n + n) fl)"
proof -
  have m: "0 \<le> x mod n \<and> x mod n < n" for x
    using assms by simp
  have "0 \<le> x mod n \<and> x mod n < 2 * n \<and> 0 \<le> x mod n + n \<and> x mod n + n < 2 * n" for x
    using m [of x] by linarith
  then show ?thesis
    by (simp add: in_range_def list_all_iff ball_Un)
qed

lemma remove_idx_in_range:
  assumes "0 < n"
  shows "in_range (2 * n - 2 * F)
           (map (\<lambda>x. x mod n - F) rl @ map (\<lambda>x. x mod n - F + n - F) rl)
         \<longleftrightarrow> list_all (\<lambda>x. F \<le> x mod n) rl"
proof -
  have m: "0 \<le> x mod n \<and> x mod n < n" for x
    using assms by simp
  have "(0 \<le> x mod n - F \<and> x mod n - F < 2 * n - 2 * F
         \<and> 0 \<le> x mod n - F + n - F \<and> x mod n - F + n - F < 2 * n - 2 * F)
        \<longleftrightarrow> F \<le> x mod n" for x
    using m [of x] by linarith
  then show ?thesis
    by (auto simp: in_range_def list_all_iff ball_Un)
qed

text \<open>
  C6, as the code has it. For raw lists with entries in \<open>[-n, n)\<close> the preparation
  succeeds and every index to freeze lies in \<open>[0, 2n)\<close>. The indices to remove all lie in
  \<open>[0, 2n - 2F)\<close>, with \<open>F\<close> the length of the raw freeze list, exactly when every raw
  remove index, made positive, is at least \<open>F\<close>: the notebook subtracts \<open>F\<close> from each
  of them and has no range check of its own.
\<close>

theorem prepare_full_idx_in_range:
  assumes fl: "raw_idx n fl" and rl: "raw_idx n rl"
  shows "\<exists>fl' rl'. prepare_full_idx n fl rl = Inr (fl', rl')
           \<and> in_range (2 * n) fl'
           \<and> (in_range (2 * n - 2 * int (length fl)) rl'
                \<longleftrightarrow> list_all (\<lambda>x. int (length fl) \<le> x mod n) rl)"
proof (cases "fl = [] \<and> rl = []")
  case True
  then show ?thesis
    by (simp add: prepare_full_idx_Inr in_range_def)
next
  case False
  then have n: "0 < n"
    using raw_idx_pos [OF fl] raw_idx_pos [OF rl] by blast
  then have "n \<noteq> 0 \<or> (fl = [] \<and> rl = [])" by simp
  note eq = prepare_full_idx_Inr [OF this]
  show ?thesis
    unfolding eq using freeze_idx_in_range [OF n] remove_idx_in_range [OF n] by blast
qed

theorem prepare_full_idx_in_range_witness:
  "raw_idx 6 [0] \<and> raw_idx 6 [-3, -2]
   \<and> prepare_full_idx 6 [0] [-3, -2] = (Inr ([0, 6], [2, 3, 7, 8]) :: unit exn + int list \<times> int list)
   \<and> in_range 12 [0, 6] \<and> in_range 10 [2, 3, 7, 8]"
  using prepare_full_idx_in_range [of 6 "[0]" "[-3, -2]"]
  by (simp add: raw_idx_def in_range_def prepare_full_idx_def convert_negative_idx_def)

text \<open>
  The range claim for the remove list fails as soon as a raw remove index is smaller than
  the number of frozen orbitals: freezing orbital 1 and removing orbital 0 of six hands the
  index \<open>-1\<close> to the elimination.
\<close>

theorem prepare_full_idx_remove_out_of_range:
  "raw_idx 6 [1] \<and> raw_idx 6 [0]
   \<and> prepare_full_idx 6 [1] [0] = (Inr ([1, 7], [-1, 4]) :: unit exn + int list \<times> int list)
   \<and> \<not> in_range (2 * 6 - 2 * int (length [1 :: int])) [-1, 4]"
  by (simp add: raw_idx_def in_range_def prepare_full_idx_def convert_negative_idx_def)

section \<open>Properties of the runs\<close>

lemma fail_stop_None: "fail_stop t None \<Longrightarrow> ev \<in> set t \<Longrightarrow> snd ev = None"
proof (induction t)
  case Nil
  then show ?case by simp
next
  case (Cons a t)
  then show ?case by (cases a; cases "snd a") auto
qed

lemma fail_stop_append:
  "\<forall>ev\<in>set t. snd ev = None \<Longrightarrow> fail_stop (t @ t') r = fail_stop t' r"
  by (induction t) auto

lemma fail_stop_split:
  "fail_stop t r \<Longrightarrow> t = ts @ (c, Some e) # ts' \<Longrightarrow>
     ts' = [] \<and> r = Some e \<and> (\<forall>ev\<in>set ts. snd ev = None)"
proof (induction t r arbitrary: ts rule: fail_stop.induct)
  case (1 r)
  then show ?case by simp
next
  case (2 c' t r)
  then show ?case by (cases ts) auto
next
  case (3 c' e' t r)
  then show ?case by (cases ts) auto
qed

lemma stops_returns: "stops (returns a)"
  by (simp add: stops_def returns_def)

lemma stops_own: "stops (own r)"
  by (simp add: stops_def own_def)

lemma stops_invoke: "stops (invoke c r)"
  by (cases r) (simp_all add: stops_def invoke_def raised_def)

lemma stops_then_do:
  assumes "stops m" and "\<And>a. stops (k a)"
  shows "stops (then_do m k)"
proof (cases m)
  case (Pair t r)
  show ?thesis
  proof (cases r)
    case (Inl e)
    with Pair assms(1) show ?thesis by (simp add: then_do_def stops_def raised_def)
  next
    case (Inr a)
    with Pair assms(1) have "\<forall>ev\<in>set t. snd ev = None"
      using fail_stop_None by (fastforce simp: stops_def raised_def)
    then show ?thesis
      using Pair Inr assms(2) [of a]
      by (cases "k a") (simp add: then_do_def fail_stop_append stops_def)
  qed
qed

lemma stops_if: "stops a \<Longrightarrow> stops b \<Longrightarrow> stops (if c then a else b)"
  by simp

lemma stops_case_prod: "(\<And>a b. stops (f a b)) \<Longrightarrow> stops (case_prod f p)"
  by (cases p) simp

lemmas stops_intros =
  stops_then_do stops_invoke stops_returns stops_own stops_if stops_case_prod

lemma stops_prepare: "stops (prepare_qubit_hamiltonian lib s)"
  unfolding prepare_qubit_hamiltonian_def fermionic_hamiltonian_def freezing_stage_def
    elimination_stage_def qubit_mapping_def
  by (intro stops_intros)

lemma stops_notebook: "stops (notebook lib fl rl mt)"
  unfolding notebook_def define_molecule_def exact_reference_def variational_def
  by (intro stops_intros stops_prepare)

text \<open>
  C7. In a run of the whole notebook, a library call that raises is the last call made, every
  call before it returned, and the exception it raised is the outcome of the run, unchanged:
  nothing is caught, retried or replaced.
\<close>

theorem library_error_propagates:
  assumes "notebook lib fl rl mt = (t, r)" and "t = ts @ (c, Some e) # ts'"
  shows "ts' = [] \<and> r = Inl e \<and> (\<forall>ev\<in>set ts. snd ev = None)"
proof -
  have "fail_stop t (raised r)"
    using stops_notebook [of lib fl rl mt] assms(1) by (simp add: stops_def)
  from fail_stop_split [OF this assms(2)] show ?thesis
    by (auto simp: raised_def split: sum.splits)
qed

theorem library_error_propagates_witness:
  "notebook elimination_raising [0] [-3, -2] ''parity''
     = ([(Call_PySCFDriver ''Li .0 .0 .0; H .0 .0 1.6'' ANGSTROM 0 0 ''sto3g'', None),
         (Call_driver_run 0, None), (Call_FermionicOperator 12 12, None),
         (Call_fermion_mode_freezing 12 [0, 6], None)]
        @ (Call_fermion_mode_elimination 10 [2, 3, 7, 8], Some (LibraryError ''elimination''))
        # [],
        Inl (LibraryError ''elimination''))"
proof -
  obtain t r where run: "notebook elimination_raising [0] [-3, -2] ''parity'' = (t, r)"
    and t: "t = [(Call_PySCFDriver ''Li .0 .0 .0; H .0 .0 1.6'' ANGSTROM 0 0 ''sto3g'', None),
         (Call_driver_run 0, None), (Call_FermionicOperator 12 12, None),
         (Call_fermion_mode_freezing 12 [0, 6], None)]
        @ (Call_fermion_mode_elimination 10 [2, 3, 7, 8], Some (LibraryError ''elimination''))
        # tl (drop 4 t)"
    by (simp add: notebook_def define_molecule_def exact_reference_def variational_def
          prepare_qubit_hamiltonian_def fermionic_hamiltonian_def rebind_full_idx_def
          freezing_stage_def
          elimination_stage_def qubit_mapping_def then_do_def invoke_def returns_def own_def
          raised_def elimination_raising_def mode_counting_def molecule_vars_def lih_def
          prepare_full_idx_def convert_negative_idx_def)
  from library_error_propagates [OF run t] have "tl (drop 4 t) = []"
    and "r = Inl (LibraryError ''elimination'')"
    by simp_all
  with run t show ?thesis by simp
qed

lemmas run_defs = then_do_def invoke_def returns_def own_def raised_def

lemma then_do_Inr:
  assumes "then_do m k = (t, Inr b)"
  obtains t1 a t2 where "m = (t1, Inr a)" and "k a = (t2, Inr b)" and "t = t1 @ t2"
  using assms by (auto simp: then_do_def split: prod.splits sum.splits)

lemma fermionic_hamiltonian_Inr:
  fixes lib :: "('v, 'e::zero, 'x) library"
  assumes "fermionic_hamiltonian lib s = (t, Inr s1)"
  shows "prepare_full_idx (num_orbitals (molecule s)) (freeze_list s) (remove_list s)
           = (Inr (freeze_list s1, remove_list s1) :: 'x exn + int list \<times> int list)"
    and "FermionicOperator lib (h1 s) (h2 s) = Inr (ferOp s1)"
    and "t = [(Call_FermionicOperator (h1 s) (h2 s), None)]"
    and "num_particles s1 = num_particles s"
    and "num_spin_orbitals s1 = num_spin_orbitals s"
    and "energy_shift s1 = 0"
    and "qubit_reduction s1 = (map_type s = ''parity'')"
    and "map_type s1 = map_type s"
  using assms
  by (auto simp: fermionic_hamiltonian_def rebind_full_idx_def run_defs
           split: prod.splits sum.splits if_splits)

lemma freezing_stage_Inr:
  assumes "freezing_stage lib s = (t, Inr s')"
  shows "num_particles s' = num_particles s - int (length (freeze_list s))"
    and "num_spin_orbitals s' = num_spin_orbitals s - int (length (freeze_list s))"
    and "freeze_list s' = freeze_list s"
    and "remove_list s' = remove_list s"
    and "map_type s' = map_type s"
    and "qubit_reduction s' = qubit_reduction s"
    and "freeze_list s = [] \<Longrightarrow> energy_shift s' = energy_shift s"
  using assms
  by (auto simp: freezing_stage_def run_defs split: prod.splits sum.splits if_splits)

lemma elimination_stage_Inr:
  assumes "elimination_stage lib s = (t, Inr s')"
  shows "num_particles s' = num_particles s"
    and "num_spin_orbitals s' = num_spin_orbitals s - int (length (remove_list s))"
    and "freeze_list s' = freeze_list s"
    and "remove_list s' = remove_list s"
    and "map_type s' = map_type s"
    and "qubit_reduction s' = qubit_reduction s"
    and "energy_shift s' = energy_shift s"
  using assms
  by (auto simp: elimination_stage_def run_defs split: prod.splits sum.splits if_splits)

lemma qubit_mapping_Inr:
  assumes "qubit_mapping lib s = (t, Inr s')"
  shows "num_particles s' = num_particles s"
    and "num_spin_orbitals s' = num_spin_orbitals s"
    and "freeze_list s' = freeze_list s"
    and "remove_list s' = remove_list s"
    and "map_type s' = map_type s"
    and "qubit_reduction s' = qubit_reduction s"
    and "energy_shift s' = energy_shift s"
  using assms
  by (auto simp: qubit_mapping_def run_defs split: prod.splits sum.splits if_splits)

lemma prepare_qubit_hamiltonian_Inr:
  assumes "prepare_qubit_hamiltonian lib s = (t, Inr s')"
  obtains t1 s1 t2 s2 t3 s3 t4 where
    "fermionic_hamiltonian lib s = (t1, Inr s1)" and
    "freezing_stage lib s1 = (t2, Inr s2)" and
    "elimination_stage lib s2 = (t3, Inr s3)" and
    "qubit_mapping lib s3 = (t4, Inr s')" and
    "t = t1 @ t2 @ t3 @ t4"
proof -
  from assms obtain t1 s1 u1 where
    1: "fermionic_hamiltonian lib s = (t1, Inr s1)" and
    r1: "then_do (freezing_stage lib s1)
           (\<lambda>s2. then_do (elimination_stage lib s2) (\<lambda>s3. qubit_mapping lib s3)) = (u1, Inr s')"
    and e1: "t = t1 @ u1"
    unfolding prepare_qubit_hamiltonian_def by (rule then_do_Inr)
  from r1 obtain t2 s2 u2 where
    2: "freezing_stage lib s1 = (t2, Inr s2)" and
    r2: "then_do (elimination_stage lib s2) (\<lambda>s3. qubit_mapping lib s3) = (u2, Inr s')"
    and e2: "u1 = t2 @ u2"
    by (rule then_do_Inr)
  from r2 obtain t3 s3 t4 where
    3: "elimination_stage lib s2 = (t3, Inr s3)" and
    4: "qubit_mapping lib s3 = (t4, Inr s')" and e3: "u2 = t3 @ t4"
    by (rule then_do_Inr)
  from 1 2 3 4 e1 e2 e3 that show thesis by simp
qed

text \<open>
  C1. After cell 4 the spin-orbital count is its initial value minus the length of the freeze
  list applied plus the length of the remove list applied; each of these lists is twice as
  long as the raw one. For the notebook's lists, 12 becomes 6.
\<close>

theorem num_spin_orbitals_reduced:
  assumes "prepare_qubit_hamiltonian lib s = (t, Inr s')"
  shows "length (freeze_list s') = 2 * length (freeze_list s)
       \<and> length (remove_list s') = 2 * length (remove_list s)
       \<and> num_spin_orbitals s'
           = num_spin_orbitals s - (int (length (freeze_list s')) + int (length (remove_list s')))"
proof -
  from assms obtain t1 s1 t2 s2 t3 s3 t4 where
    1: "fermionic_hamiltonian lib s = (t1, Inr s1)" and
    2: "freezing_stage lib s1 = (t2, Inr s2)" and
    3: "elimination_stage lib s2 = (t3, Inr s3)" and
    4: "qubit_mapping lib s3 = (t4, Inr s')"
    by (rule prepare_qubit_hamiltonian_Inr)
  have fl: "freeze_list s' = freeze_list s1" and rl: "remove_list s' = remove_list s1"
    by (simp_all add: qubit_mapping_Inr [OF 4] elimination_stage_Inr [OF 3]
          freezing_stage_Inr [OF 2])
  have "num_spin_orbitals s' = num_spin_orbitals s
          - int (length (freeze_list s1)) - int (length (remove_list s1))"
    by (simp add: qubit_mapping_Inr [OF 4] elimination_stage_Inr [OF 3]
          freezing_stage_Inr [OF 2] fermionic_hamiltonian_Inr [OF 1])
  with prepare_full_idx_lengths [OF fermionic_hamiltonian_Inr(1) [OF 1]] fl rl
  show ?thesis by simp
qed

lemmas double_defs =
  prepare_qubit_hamiltonian_def fermionic_hamiltonian_def rebind_full_idx_def
  freezing_stage_def elimination_stage_def qubit_mapping_def then_do_def invoke_def returns_def own_def raised_def
  mode_counting_def notebook_vars_def molecule_vars_def lih_def
  prepare_full_idx_def convert_negative_idx_def

theorem num_spin_orbitals_reduced_witness:
  "case snd (prepare_qubit_hamiltonian mode_counting notebook_vars) of
     Inl e \<Rightarrow> False
   | Inr s' \<Rightarrow> num_spin_orbitals notebook_vars = 12
              \<and> length (freeze_list s') = 2 \<and> length (remove_list s') = 4
              \<and> num_spin_orbitals s' = 6"
proof -
  obtain t s' where run: "prepare_qubit_hamiltonian mode_counting notebook_vars = (t, Inr s')"
    by (simp add: double_defs)
  have "freeze_list notebook_vars = [0]" and "remove_list notebook_vars = [-3, -2]"
    and "num_spin_orbitals notebook_vars = 12"
    by (simp_all add: notebook_vars_def molecule_vars_def lih_def)
  with num_spin_orbitals_reduced [OF run] run show ?thesis by simp
qed

lemma then_do_cases:
  assumes "then_do m k = (t, r)"
  obtains (raised) e where "m = (t, Inl e)" and "r = Inl e"
    | (returned) t1 a t2 where "m = (t1, Inr a)" and "k a = (t2, r)" and "t = t1 @ t2"
  using assms by (auto simp: then_do_def split: prod.splits sum.splits)

lemma fermionic_hamiltonian_trace:
  assumes "fermionic_hamiltonian lib s = (t, r)" and "ev \<in> set t"
  shows "ev = (Call_FermionicOperator (h1 s) (h2 s), raised (FermionicOperator lib (h1 s) (h2 s)))"
  using assms
  by (auto simp: fermionic_hamiltonian_def rebind_full_idx_def run_defs
           split: prod.splits sum.splits if_splits)

lemma freezing_stage_trace:
  assumes "freezing_stage lib s = (t, r)"
  shows "t = (if freeze_list s = [] then []
              else [(Call_fermion_mode_freezing (ferOp s) (freeze_list s),
                     raised (fermion_mode_freezing lib (ferOp s) (freeze_list s)))])"
  using assms
  by (auto simp: freezing_stage_def run_defs split: prod.splits sum.splits if_splits)

lemma freezing_stage_ferOp:
  assumes "freezing_stage lib s = (t, Inr s')"
  shows "if freeze_list s = [] then s' = s
         else \<exists>shift. fermion_mode_freezing lib (ferOp s) (freeze_list s) = Inr (ferOp s', shift)"
  using assms
  by (auto simp: freezing_stage_def run_defs split: prod.splits sum.splits if_splits)

lemma elimination_stage_trace:
  assumes "elimination_stage lib s = (t, r)"
  shows "t = (if remove_list s = [] then []
              else [(Call_fermion_mode_elimination (ferOp s) (remove_list s),
                     raised (fermion_mode_elimination lib (ferOp s) (remove_list s)))])"
  using assms
  by (auto simp: elimination_stage_def run_defs split: prod.splits sum.splits if_splits)

lemma elimination_stage_empty:
  assumes "remove_list s = []"
  shows "elimination_stage lib s = ([], Inr s)"
  using assms by (simp add: elimination_stage_def returns_def)

lemma freezing_stage_empty:
  assumes "freeze_list s = []"
  shows "freezing_stage lib s = ([], Inr s)"
  using assms by (simp add: freezing_stage_def returns_def)

lemma qubit_mapping_trace:
  assumes "qubit_mapping lib s = (t, r)"
  shows "case mapping lib (ferOp s) (map_type s) of
           Inl e \<Rightarrow> t = [(Call_mapping (ferOp s) (map_type s), Some e)]
         | Inr q \<Rightarrow>
             if qubit_reduction s then
               (case two_qubit_reduction lib q (num_particles s) of
                  Inl e \<Rightarrow> t = [(Call_mapping (ferOp s) (map_type s), None),
                                 (Call_two_qubit_reduction q (num_particles s), Some e)]
                | Inr q' \<Rightarrow> \<exists>ts. t = (Call_mapping (ferOp s) (map_type s), None)
                                  # (Call_two_qubit_reduction q (num_particles s), None)
                                  # (Call_chop q', raised (chop lib q')) # ts
                              \<and> (\<forall>ev\<in>set ts. \<exists>x. fst ev = Call_print_details x))
             else \<exists>ts. t = (Call_mapping (ferOp s) (map_type s), None)
                          # (Call_chop q, raised (chop lib q)) # ts
                      \<and> (\<forall>ev\<in>set ts. \<exists>x. fst ev = Call_print_details x)"
  using assms
  by (auto simp: qubit_mapping_def run_defs split: prod.splits sum.splits if_splits)

lemma qubit_mapping_calls:
  assumes "qubit_mapping lib s = (t, r)" and "ev \<in> set t"
  shows "(\<exists>f m. fst ev = Call_mapping f m) \<or> (\<exists>q n. fst ev = Call_two_qubit_reduction q n)
       \<or> (\<exists>q. fst ev = Call_chop q) \<or> (\<exists>q. fst ev = Call_print_details q)"
  using assms
  by (auto simp: qubit_mapping_def run_defs split: prod.splits sum.splits if_splits)

lemma prepare_full_idx_closed:
  assumes "prepare_full_idx n fl rl = Inr (fl', rl')"
  shows "fl' = map (\<lambda>x. x mod n) fl @ map (\<lambda>x. x mod n + n) fl"
    and "rl' = map (\<lambda>x. x mod n - int (length fl)) rl
                @ map (\<lambda>x. (x mod n - int (length fl)) + (n - int (length fl))) rl"
  using assms
  by (auto simp: prepare_full_idx_def convert_negative_idx_def Let_def comp_def
           split: if_splits sum.splits)

lemma prepare_qubit_hamiltonian_cases:
  assumes "prepare_qubit_hamiltonian lib s = (t, r)"
  obtains
    (fermionic) e where "fermionic_hamiltonian lib s = (t, Inl e)" and "r = Inl e"
  | (freezing) t1 s1 t2 e where "fermionic_hamiltonian lib s = (t1, Inr s1)"
      and "freezing_stage lib s1 = (t2, Inl e)" and "t = t1 @ t2" and "r = Inl e"
  | (elimination) t1 s1 t2 s2 t3 e where "fermionic_hamiltonian lib s = (t1, Inr s1)"
      and "freezing_stage lib s1 = (t2, Inr s2)"
      and "elimination_stage lib s2 = (t3, Inl e)" and "t = t1 @ t2 @ t3" and "r = Inl e"
  | (mapping) t1 s1 t2 s2 t3 s3 t4 where "fermionic_hamiltonian lib s = (t1, Inr s1)"
      and "freezing_stage lib s1 = (t2, Inr s2)"
      and "elimination_stage lib s2 = (t3, Inr s3)"
      and "qubit_mapping lib s3 = (t4, r)" and "t = t1 @ t2 @ t3 @ t4"
proof -
  from assms show thesis
    unfolding prepare_qubit_hamiltonian_def
  proof (cases rule: then_do_cases)
    case (raised e)
    then show ?thesis by (rule fermionic)
  next
    case a: (returned t1 s1 u1)
    from a(2) show ?thesis
    proof (cases rule: then_do_cases)
      case (raised e)
      with a show ?thesis by (intro freezing [of t1 s1 u1 e]) simp_all
    next
      case b: (returned t2 s2 u2)
      from b(2) show ?thesis
      proof (cases rule: then_do_cases)
        case (raised e)
        with a b show ?thesis by (intro elimination [of t1 s1 t2 s2 u2 e]) simp_all
      next
        case c: (returned t3 s3 t4)
        with a b show ?thesis by (intro mapping [of t1 s1 t2 s2 t3 s3 t4]) simp_all
      qed
    qed
  qed
qed

lemma reduction_prefix:
  fixes lib :: "('v, 'e::zero, 'x) library"
  assumes 1: "fermionic_hamiltonian lib s = (t1, Inr s1)"
      and 2: "freezing_stage lib s1 = (t2, r2)"
  defines "n \<equiv> num_orbitals (molecule s)" and "F \<equiv> int (length (freeze_list s))"
  shows "t1 = [(Call_FermionicOperator (h1 s) (h2 s), None)]"
    and "FermionicOperator lib (h1 s) (h2 s) = Inr (ferOp s1)"
    and "freeze_list s1
           = map (\<lambda>x. x mod n) (freeze_list s) @ map (\<lambda>x. x mod n + n) (freeze_list s)"
    and "remove_list s1
           = map (\<lambda>x. x mod n - F) (remove_list s)
               @ map (\<lambda>x. (x mod n - F) + (n - F)) (remove_list s)"
    and "t2 = (if freeze_list s = [] then []
               else [(Call_fermion_mode_freezing (ferOp s1) (freeze_list s1),
                      raised (fermion_mode_freezing lib (ferOp s1) (freeze_list s1)))])"
proof -
  note idx = fermionic_hamiltonian_Inr(1) [OF 1]
  show "t1 = [(Call_FermionicOperator (h1 s) (h2 s), None)]"
    by (rule fermionic_hamiltonian_Inr(3) [OF 1])
  show "FermionicOperator lib (h1 s) (h2 s) = Inr (ferOp s1)"
    by (rule fermionic_hamiltonian_Inr(2) [OF 1])
  show "freeze_list s1
           = map (\<lambda>x. x mod n) (freeze_list s) @ map (\<lambda>x. x mod n + n) (freeze_list s)"
    unfolding n_def by (rule prepare_full_idx_closed(1) [OF idx])
  then have "freeze_list s1 = [] \<longleftrightarrow> freeze_list s = []"
    by simp
  then show "t2 = (if freeze_list s = [] then []
               else [(Call_fermion_mode_freezing (ferOp s1) (freeze_list s1),
                      raised (fermion_mode_freezing lib (ferOp s1) (freeze_list s1)))])"
    using freezing_stage_trace [OF 2] by simp
  show "remove_list s1
           = map (\<lambda>x. x mod n - F) (remove_list s)
               @ map (\<lambda>x. (x mod n - F) + (n - F)) (remove_list s)"
    unfolding n_def F_def by (rule prepare_full_idx_closed(2) [OF idx])
qed

lemma elimination_event:
  fixes lib :: "('v, 'e::zero, 'x) library"
  assumes run: "prepare_qubit_hamiltonian lib s = (t, r)"
      and ev: "(Call_fermion_mode_elimination f rl, out) \<in> set t"
  obtains s1 s2 t2 t4 where
    "fermionic_hamiltonian lib s = ([(Call_FermionicOperator (h1 s) (h2 s), None)], Inr s1)"
    and "freezing_stage lib s1 = (t2, Inr s2)"
    and "t = (Call_FermionicOperator (h1 s) (h2 s), None) # t2
               @ (Call_fermion_mode_elimination f rl, out) # t4"
    and "f = ferOp s2" and "rl = remove_list s1" and "remove_list s \<noteq> []"
    and "\<forall>g l out'. (Call_fermion_mode_freezing g l, out') \<notin> set t4"
    and "\<forall>g l out'. (Call_fermion_mode_elimination g l, out') \<notin> set t4"
proof -
  from run show thesis
  proof (cases rule: prepare_qubit_hamiltonian_cases)
    case (fermionic e)
    with ev fermionic_hamiltonian_trace [OF fermionic(1)] show ?thesis by fastforce
  next
    case (freezing t1 s1 t2 e)
    note p = reduction_prefix [OF freezing(1,2)]
    from ev freezing(3) p(1,5) show ?thesis by (auto split: if_splits)
  next
    case (elimination t1 s1 t2 s2 t3 e)
    note p = reduction_prefix [OF elimination(1,2)]
    note q = elimination_stage_trace [OF elimination(3)]
    have rl: "remove_list s2 = remove_list s1"
      by (rule freezing_stage_Inr(4) [OF elimination(2)])
    from ev elimination(4) p(1,5) have in3: "(Call_fermion_mode_elimination f rl, out) \<in> set t3"
      by (auto split: if_splits)
    with q have ne: "remove_list s2 \<noteq> []"
      and eq: "t3 = [(Call_fermion_mode_elimination f rl, out)]"
      and f: "f = ferOp s2" and l: "rl = remove_list s2"
      by (auto split: if_splits)
    from ne rl p(4) have "remove_list s \<noteq> []" by auto
    with elimination p(1) eq f l rl show ?thesis
      by (intro that [of s1 t2 s2 "[]"]) simp_all
  next
    case (mapping t1 s1 t2 s2 t3 s3 t4)
    note p = reduction_prefix [OF mapping(1,2)]
    note q = elimination_stage_trace [OF mapping(3)]
    have rl: "remove_list s2 = remove_list s1"
      by (rule freezing_stage_Inr(4) [OF mapping(2)])
    have t4: "\<forall>g l out'. (Call_fermion_mode_freezing g l, out') \<notin> set t4
                  \<and> (Call_fermion_mode_elimination g l, out') \<notin> set t4"
      using qubit_mapping_calls [OF mapping(4)] by fastforce
    with ev mapping(5) p(1,5) have in3: "(Call_fermion_mode_elimination f rl, out) \<in> set t3"
      by (auto split: if_splits)
    with q have ne: "remove_list s2 \<noteq> []"
      and eq: "t3 = [(Call_fermion_mode_elimination f rl, out)]"
      and f: "f = ferOp s2" and l: "rl = remove_list s2"
      by (auto split: if_splits)
    from ne rl p(4) have "remove_list s \<noteq> []" by auto
    with mapping p(1) eq f l rl t4 show ?thesis
      by (intro that [of s1 t2 s2 t4]) simp_all
  qed
qed

lemma post_freeze_position_card:
  "post_freeze_position frozen i = i - int (card {j \<in> set frozen. j < i})"
proof -
  have "length (filter (\<lambda>j. j < i) (remdups frozen)) = card (set (filter (\<lambda>j. j < i) frozen))"
    by (simp add: remdups_filter [symmetric] length_remdups_card_conv del: set_filter)
  then show ?thesis by (simp add: post_freeze_position_def)
qed

lemma frozen_below:
  fixes n :: int and A :: "int list"
  assumes n: "0 < n" and A: "\<forall>a\<in>set A. 0 \<le> a \<and> a < n" and y: "0 \<le> y" "y < n"
  shows "card {j \<in> set (A @ map (\<lambda>x. x + n) A). j < y} = card {a \<in> set A. a < y}"
    and "card {j \<in> set (A @ map (\<lambda>x. x + n) A). j < y + n}
           = card (set A) + card {a \<in> set A. a < y}"
proof -
  have "{j \<in> set (A @ map (\<lambda>x. x + n) A). j < y} = {a \<in> set A. a < y}"
    using A y by auto
  then show "card {j \<in> set (A @ map (\<lambda>x. x + n) A). j < y} = card {a \<in> set A. a < y}"
    by simp
  have eq: "{j \<in> set (A @ map (\<lambda>x. x + n) A). j < y + n}
          = set A \<union> (\<lambda>x. x + n) ` {a \<in> set A. a < y}"
    using A y n by auto
  have disj: "set A \<inter> (\<lambda>x. x + n) ` {a \<in> set A. a < y} = {}"
  proof (rule ccontr)
    assume "set A \<inter> (\<lambda>x. x + n) ` {a \<in> set A. a < y} \<noteq> {}"
    then obtain a b where "a \<in> set A" and "b \<in> set A" and "a = b + n" by auto
    with A have "a < n" and "0 \<le> b" and "a = b + n" by auto
    then show False by linarith
  qed
  have "card ((\<lambda>x. x + n) ` {a \<in> set A. a < y}) = card {a \<in> set A. a < y}"
    by (rule card_image) (simp add: inj_on_def)
  with disj show "card {j \<in> set (A @ map (\<lambda>x. x + n) A). j < y + n}
           = card (set A) + card {a \<in> set A. a < y}"
    unfolding eq by (simp add: card_Un_disjoint)
qed

lemma all_below_card:
  fixes A :: "int list"
  shows "card {a \<in> set A. a < y} = length A \<longleftrightarrow> distinct A \<and> (\<forall>a\<in>set A. a < y)"
proof
  assume c: "card {a \<in> set A. a < y} = length A"
  have sub: "{a \<in> set A. a < y} \<subseteq> set A" by auto
  then have "card {a \<in> set A. a < y} \<le> card (set A)"
    by (intro card_mono) simp_all
  moreover have "card (set A) \<le> length A" by (rule card_length)
  ultimately have k: "card (set A) = length A" and e: "card {a \<in> set A. a < y} = card (set A)"
    using c by simp_all
  from sub e have "{a \<in> set A. a < y} = set A"
    by (intro card_subset_eq) simp_all
  then have "\<forall>a\<in>set A. a < y" by blast
  with k show "distinct A \<and> (\<forall>a\<in>set A. a < y)" by (simp add: card_distinct)
next
  assume d: "distinct A \<and> (\<forall>a\<in>set A. a < y)"
  then have "{a \<in> set A. a < y} = set A" by auto
  with d show "card {a \<in> set A. a < y} = length A" by (simp add: distinct_card)
qed

lemma shifted_idx_post_freeze:
  fixes n :: int and fl rl :: "int list"
  assumes n: "0 < n"
  defines "A \<equiv> map (\<lambda>x. x mod n) fl" and "F \<equiv> int (length fl)"
  shows "map (\<lambda>x. x mod n - F) rl @ map (\<lambda>x. (x mod n - F) + (n - F)) rl
           = map (post_freeze_position (A @ map (\<lambda>x. x + n) A))
               (map (\<lambda>y. y mod n) rl @ map (\<lambda>y. y mod n + n) rl)
         \<longleftrightarrow> rl = [] \<or> (distinct A \<and> (\<forall>x\<in>set fl. \<forall>y\<in>set rl. x mod n < y mod n))"
proof -
  have A: "\<forall>a\<in>set A. 0 \<le> a \<and> a < n"
    using n by (auto simp: A_def)
  have len: "length A = length fl" by (simp add: A_def)
  have m: "0 \<le> y mod n" "y mod n < n" for y
    using n by simp_all
  have k: "card (set A) \<le> length fl"
    using card_length [of A] len by simp
  have c: "card {a \<in> set A. a < y} \<le> card (set A)" for y
    by (intro card_mono) auto
  have one: "(y mod n - F = post_freeze_position (A @ map (\<lambda>x. x + n) A) (y mod n)
              \<and> (y mod n - F) + (n - F)
                  = post_freeze_position (A @ map (\<lambda>x. x + n) A) (y mod n + n))
             \<longleftrightarrow> distinct A \<and> (\<forall>a\<in>set A. a < y mod n)" for y
  proof -
    have "(y mod n - F = post_freeze_position (A @ map (\<lambda>x. x + n) A) (y mod n)
              \<and> (y mod n - F) + (n - F)
                  = post_freeze_position (A @ map (\<lambda>x. x + n) A) (y mod n + n))
          \<longleftrightarrow> card {a \<in> set A. a < y mod n} = length fl"
      using k c [of "y mod n"]
      unfolding post_freeze_position_card frozen_below [OF n A m] F_def
      by auto
    then show ?thesis
      using all_below_card [of A "y mod n"] len by simp
  qed
  have "map (\<lambda>x. x mod n - F) rl @ map (\<lambda>x. (x mod n - F) + (n - F)) rl
           = map (post_freeze_position (A @ map (\<lambda>x. x + n) A))
               (map (\<lambda>y. y mod n) rl @ map (\<lambda>y. y mod n + n) rl)
        \<longleftrightarrow> (\<forall>y\<in>set rl. y mod n - F = post_freeze_position (A @ map (\<lambda>x. x + n) A) (y mod n)
              \<and> (y mod n - F) + (n - F)
                  = post_freeze_position (A @ map (\<lambda>x. x + n) A) (y mod n + n))"
    by (auto simp: comp_def)
  also have "\<dots> \<longleftrightarrow> (\<forall>y\<in>set rl. distinct A \<and> (\<forall>a\<in>set A. a < y mod n))"
    using one by simp
  also have "\<dots> \<longleftrightarrow> rl = [] \<or> (distinct A \<and> (\<forall>x\<in>set fl. \<forall>y\<in>set rl. x mod n < y mod n))"
    by (cases rl) (auto simp: A_def)
  finally show ?thesis .
qed

text \<open>
  C4, as the code has it. Whenever the elimination is invoked, its index list is the raw
  remove list with every index made positive and shifted down by the number \<open>F\<close> of raw
  freeze indices, once for each spin sector, the second sector starting at \<open>n - F\<close>. It is
  invoked right after the construction of the operator and, when there is something to
  freeze, after the freezing, on the operator the freezing returned; no freezing follows it.
  With \<open>n > 0\<close> orbitals, the indices handed over are the positions of the named
  spin-orbitals in the post-freeze numbering exactly when the raw freeze indices, made
  positive, are distinct and each of them is below every raw remove index made positive.
\<close>

theorem elimination_after_freezing:
  fixes lib :: "('v, 'e::zero, 'x) library"
  assumes run: "prepare_qubit_hamiltonian lib s = (t, r)"
      and ev: "(Call_fermion_mode_elimination f rl, out) \<in> set t"
  defines "n \<equiv> num_orbitals (molecule s)" and "F \<equiv> int (length (freeze_list s))"
  shows "rl = map (\<lambda>x. x mod n - F) (remove_list s)
                @ map (\<lambda>x. (x mod n - F) + (n - F)) (remove_list s)
       \<and> (\<exists>g ts. FermionicOperator lib (h1 s) (h2 s) = Inr g
             \<and> (if freeze_list s = []
                 then f = g
                    \<and> t = (Call_FermionicOperator (h1 s) (h2 s), None)
                          # (Call_fermion_mode_elimination f rl, out) # ts
                 else (\<exists>shift. fermion_mode_freezing lib g
                          (map (\<lambda>x. x mod n) (freeze_list s)
                             @ map (\<lambda>x. x mod n + n) (freeze_list s)) = Inr (f, shift))
                    \<and> t = (Call_FermionicOperator (h1 s) (h2 s), None)
                          # (Call_fermion_mode_freezing g
                               (map (\<lambda>x. x mod n) (freeze_list s)
                                  @ map (\<lambda>x. x mod n + n) (freeze_list s)), None)
                          # (Call_fermion_mode_elimination f rl, out) # ts)
             \<and> (\<forall>g' l out'. (Call_fermion_mode_freezing g' l, out') \<notin> set ts))
       \<and> (0 < n \<longrightarrow>
            (rl = map (post_freeze_position
                         (map (\<lambda>x. x mod n) (freeze_list s)
                            @ map (\<lambda>x. x mod n + n) (freeze_list s)))
                    (map (\<lambda>y. y mod n) (remove_list s) @ map (\<lambda>y. y mod n + n) (remove_list s))
             \<longleftrightarrow> distinct (map (\<lambda>x. x mod n) (freeze_list s))
                  \<and> (\<forall>x\<in>set (freeze_list s). \<forall>y\<in>set (remove_list s). x mod n < y mod n)))"
proof -
  from run ev obtain s1 s2 t2 t4 where
    1: "fermionic_hamiltonian lib s = ([(Call_FermionicOperator (h1 s) (h2 s), None)], Inr s1)"
    and 2: "freezing_stage lib s1 = (t2, Inr s2)"
    and t: "t = (Call_FermionicOperator (h1 s) (h2 s), None) # t2
               @ (Call_fermion_mode_elimination f rl, out) # t4"
    and f: "f = ferOp s2" and rl: "rl = remove_list s1"
    and ne: "remove_list s \<noteq> []"
    and t4: "\<forall>g l out'. (Call_fermion_mode_freezing g l, out') \<notin> set t4"
    by (rule elimination_event) blast
  note p = reduction_prefix [OF 1 2, folded n_def F_def]
  have idx: "rl = map (\<lambda>x. x mod n - F) (remove_list s)
                @ map (\<lambda>x. (x mod n - F) + (n - F)) (remove_list s)"
    using rl p(4) by simp
  have op: "FermionicOperator lib (h1 s) (h2 s) = Inr (ferOp s1)"
    by (rule p(2))
  have "freeze_list s1 = [] \<longleftrightarrow> freeze_list s = []"
    using p(3) by simp
  with freezing_stage_ferOp [OF 2] p(3)
  have fr: "if freeze_list s = [] then s2 = s1
            else \<exists>shift. fermion_mode_freezing lib (ferOp s1)
                   (map (\<lambda>x. x mod n) (freeze_list s) @ map (\<lambda>x. x mod n + n) (freeze_list s))
                 = Inr (ferOp s2, shift)"
    by (simp split: if_splits)
  have calls: "\<exists>g ts. FermionicOperator lib (h1 s) (h2 s) = Inr g
             \<and> (if freeze_list s = []
                 then f = g
                    \<and> t = (Call_FermionicOperator (h1 s) (h2 s), None)
                          # (Call_fermion_mode_elimination f rl, out) # ts
                 else (\<exists>shift. fermion_mode_freezing lib g
                          (map (\<lambda>x. x mod n) (freeze_list s)
                             @ map (\<lambda>x. x mod n + n) (freeze_list s)) = Inr (f, shift))
                    \<and> t = (Call_FermionicOperator (h1 s) (h2 s), None)
                          # (Call_fermion_mode_freezing g
                               (map (\<lambda>x. x mod n) (freeze_list s)
                                  @ map (\<lambda>x. x mod n + n) (freeze_list s)), None)
                          # (Call_fermion_mode_elimination f rl, out) # ts)
             \<and> (\<forall>g' l out'. (Call_fermion_mode_freezing g' l, out') \<notin> set ts)"
  proof (cases "freeze_list s = []")
    case True
    with fr p(5) t f t4 op show ?thesis
      by (intro conjI exI [of _ "ferOp s1"] exI [of _ t4]) simp_all
  next
    case False
    with fr have "raised (fermion_mode_freezing lib (ferOp s1) (freeze_list s1)) = None"
      using p(3) by (auto simp: raised_def)
    with False fr p(3,5) t f t4 op show ?thesis
      by (intro conjI exI [of _ "ferOp s1"] exI [of _ t4]) simp_all
  qed
  have pos: "rl = map (post_freeze_position
                         (map (\<lambda>x. x mod n) (freeze_list s)
                            @ map (\<lambda>x. x mod n + n) (freeze_list s)))
                    (map (\<lambda>y. y mod n) (remove_list s) @ map (\<lambda>y. y mod n + n) (remove_list s))
             \<longleftrightarrow> distinct (map (\<lambda>x. x mod n) (freeze_list s))
                  \<and> (\<forall>x\<in>set (freeze_list s). \<forall>y\<in>set (remove_list s). x mod n < y mod n)"
    if "0 < n"
    using shifted_idx_post_freeze [OF that, where fl = "freeze_list s" and rl = "remove_list s"] ne
    unfolding idx F_def by (simp add: comp_def)
  from idx calls pos show ?thesis by blast
qed

theorem elimination_after_freezing_witness:
  "take 3 (fst (prepare_qubit_hamiltonian mode_counting notebook_vars))
     = [(Call_FermionicOperator 12 12, None), (Call_fermion_mode_freezing 12 [0, 6], None),
        (Call_fermion_mode_elimination 10 [2, 3, 7, 8], None)]
   \<and> fermion_mode_freezing mode_counting 12 [0, 6] = Inr (10, - 7)
   \<and> [2, 3, 7, 8] = map (\<lambda>x. x mod 6 - 1) [-3, -2] @ map (\<lambda>x. (x mod 6 - 1) + (6 - 1)) [-3, -2 :: int]
   \<and> [2, 3, 7, 8] = map (post_freeze_position [0, 6]) [3, 4, 9, 10]"
proof -
  obtain t r where run: "prepare_qubit_hamiltonian mode_counting notebook_vars = (t, r)"
    and ev: "(Call_fermion_mode_elimination 10 [2, 3, 7, 8], None) \<in> set t"
    by (simp add: double_defs)
  have v: "freeze_list notebook_vars = [0]" "remove_list notebook_vars = [-3, -2]"
    "num_orbitals (molecule notebook_vars) = 6" "h1 notebook_vars = 12" "h2 notebook_vars = 12"
    by (simp_all add: notebook_vars_def molecule_vars_def lih_def)
  have op: "FermionicOperator mode_counting 12 12 = Inr 12"
    by (simp add: mode_counting_def)
  have fr: "fermion_mode_freezing mode_counting 12 [0, 6] = Inr (10, - 7)"
    by (simp add: mode_counting_def)
  from elimination_after_freezing [OF run ev] run show ?thesis
    unfolding v by (auto simp: op fr)
qed

text \<open>
  The indices handed over are not post-freeze positions in general: freezing orbital 3 and
  removing orbital 1 of six hands \<open>[0, 5]\<close> to the elimination, while orbital 1 sits at
  \<open>1\<close> and \<open>6\<close> once the spin-orbitals \<open>3\<close> and \<open>9\<close> are gone.
\<close>

theorem elimination_idx_not_post_freeze:
  "prepare_full_idx 6 [3] [1] = (Inr ([3, 9], [0, 5]) :: unit exn + int list \<times> int list)
   \<and> (Call_fermion_mode_elimination 10 [0, 5], None)
        \<in> set (fst (prepare_qubit_hamiltonian mode_counting (molecule_vars lih [3] [1] ''parity'')))
   \<and> map (post_freeze_position [3, 9]) [1, 7] = [1, 6]
   \<and> [0, 5] \<noteq> [1, 6 :: int]"
  by (simp add: double_defs post_freeze_position_def)

lemma freezing_event:
  fixes lib :: "('v, 'e::zero, 'x) library"
  assumes run: "prepare_qubit_hamiltonian lib s = (t, r)"
      and ev: "(Call_fermion_mode_freezing f l, out) \<in> set t"
  shows "freeze_list s \<noteq> []"
proof -
  from run show ?thesis
  proof (cases rule: prepare_qubit_hamiltonian_cases)
    case (fermionic e)
    with ev fermionic_hamiltonian_trace [OF fermionic(1)] show ?thesis by fastforce
  next
    case (freezing t1 s1 t2 e)
    note p = reduction_prefix [OF freezing(1,2)]
    from ev freezing(3) p(1,5) show ?thesis by (auto split: if_splits)
  next
    case (elimination t1 s1 t2 s2 t3 e)
    note p = reduction_prefix [OF elimination(1,2)]
    note q = elimination_stage_trace [OF elimination(3)]
    from ev elimination(4) p(1,5) q show ?thesis by (auto split: if_splits)
  next
    case (mapping t1 s1 t2 s2 t3 s3 t4)
    note p = reduction_prefix [OF mapping(1,2)]
    note q = elimination_stage_trace [OF mapping(3)]
    have "\<forall>g l out'. (Call_fermion_mode_freezing g l, out') \<notin> set t4"
      using qubit_mapping_calls [OF mapping(4)] by fastforce
    with ev mapping(5) p(1,5) q show ?thesis by (auto split: if_splits)
  qed
qed

lemma prepare_qubit_hamiltonian_vars:
  fixes lib :: "('v, 'e::zero, 'x) library"
  assumes "prepare_qubit_hamiltonian lib s = (t, Inr s')"
  shows "length (freeze_list s') = 2 * length (freeze_list s)"
    and "length (remove_list s') = 2 * length (remove_list s)"
    and "num_particles s' = num_particles s - int (length (freeze_list s'))"
    and "num_spin_orbitals s'
           = num_spin_orbitals s - int (length (freeze_list s')) - int (length (remove_list s'))"
    and "freeze_list s = [] \<Longrightarrow> energy_shift s' = 0"
    and "qubit_reduction s' = (map_type s = ''parity'')"
    and "freeze_list s = [] \<Longrightarrow> remove_list s = []
           \<Longrightarrow> FermionicOperator lib (h1 s) (h2 s) = Inr (ferOp s')"
proof -
  from assms obtain t1 s1 t2 s2 t3 s3 t4 where
    1: "fermionic_hamiltonian lib s = (t1, Inr s1)" and
    2: "freezing_stage lib s1 = (t2, Inr s2)" and
    3: "elimination_stage lib s2 = (t3, Inr s3)" and
    4: "qubit_mapping lib s3 = (t4, Inr s')"
    by (rule prepare_qubit_hamiltonian_Inr)
  note a = fermionic_hamiltonian_Inr [OF 1] and b = freezing_stage_Inr [OF 2]
    and c = elimination_stage_Inr [OF 3] and d = qubit_mapping_Inr [OF 4]
  note len = prepare_full_idx_lengths [OF a(1)]
  have fl: "freeze_list s' = freeze_list s1" and rl: "remove_list s' = remove_list s1"
    by (simp_all add: b c d)
  show "length (freeze_list s') = 2 * length (freeze_list s)"
    and "length (remove_list s') = 2 * length (remove_list s)"
    using len fl rl by simp_all
  show "num_particles s' = num_particles s - int (length (freeze_list s'))"
    by (simp add: a b c d)
  show "num_spin_orbitals s'
           = num_spin_orbitals s - int (length (freeze_list s')) - int (length (remove_list s'))"
    by (simp add: a b c d)
  show "qubit_reduction s' = (map_type s = ''parity'')"
    by (simp add: a b c d)
  show "energy_shift s' = 0" if "freeze_list s = []"
  proof -
    from that len(1) have "freeze_list s1 = []" by simp
    then show ?thesis by (simp add: a b c d)
  qed
  show "FermionicOperator lib (h1 s) (h2 s) = Inr (ferOp s')"
    if "freeze_list s = []" and "remove_list s = []"
  proof -
    from that len have e: "freeze_list s1 = []" "remove_list s1 = []" by simp_all
    with 2 have "s2 = s1" by (simp add: freezing_stage_empty)
    with 3 e have "s3 = s1" by (simp add: elimination_stage_empty)
    moreover from 4 have "ferOp s' = ferOp s3"
      by (auto simp: qubit_mapping_def run_defs split: prod.splits sum.splits if_splits)
    ultimately show ?thesis using a(2) by simp
  qed
qed

text \<open>
  C5. With an empty freeze list the freezing stage makes no call and leaves every variable
  as it is, so in cell 4 no freezing is invoked, the energy shift stays 0 and the particle
  count is unchanged. With an empty remove list the elimination stage makes no call and
  leaves every variable as it is, and no elimination is invoked in cell 4. With both lists
  empty the operator that is mapped is the one constructed from the integrals and the
  spin-orbital count is unchanged.
\<close>

theorem empty_lists_are_no_ops:
  fixes lib :: "('v, 'e::zero, 'x) library"
  shows "(freeze_list s1 = [] \<longrightarrow> freezing_stage lib s1 = ([], Inr s1))
       \<and> (remove_list s1 = [] \<longrightarrow> elimination_stage lib s1 = ([], Inr s1))
       \<and> (freeze_list s = [] \<and> prepare_qubit_hamiltonian lib s = (t, r) \<longrightarrow>
            (\<forall>f l out. (Call_fermion_mode_freezing f l, out) \<notin> set t)
            \<and> (\<forall>s'. r = Inr s' \<longrightarrow> freeze_list s' = [] \<and> energy_shift s' = 0
                  \<and> num_particles s' = num_particles s
                  \<and> num_spin_orbitals s' = num_spin_orbitals s - int (length (remove_list s'))))
       \<and> (remove_list s = [] \<and> prepare_qubit_hamiltonian lib s = (t, r) \<longrightarrow>
            (\<forall>f l out. (Call_fermion_mode_elimination f l, out) \<notin> set t)
            \<and> (\<forall>s'. r = Inr s' \<longrightarrow> remove_list s' = []
                  \<and> num_spin_orbitals s' = num_spin_orbitals s - int (length (freeze_list s'))))
       \<and> (freeze_list s = [] \<and> remove_list s = []
            \<and> prepare_qubit_hamiltonian lib s = (t, Inr s') \<longrightarrow>
            FermionicOperator lib (h1 s) (h2 s) = Inr (ferOp s')
            \<and> num_spin_orbitals s' = num_spin_orbitals s)"
proof (intro conjI impI allI)
  show "freezing_stage lib s1 = ([], Inr s1)" if "freeze_list s1 = []"
    using that by (rule freezing_stage_empty)
  show "elimination_stage lib s1 = ([], Inr s1)" if "remove_list s1 = []"
    using that by (rule elimination_stage_empty)
next
  fix f l out
  assume a: "freeze_list s = [] \<and> prepare_qubit_hamiltonian lib s = (t, r)"
  then show "(Call_fermion_mode_freezing f l, out) \<notin> set t"
    using freezing_event [of lib s t r f l out] by blast
next
  fix s'
  assume a: "freeze_list s = [] \<and> prepare_qubit_hamiltonian lib s = (t, r)" and r: "r = Inr s'"
  then have run: "prepare_qubit_hamiltonian lib s = (t, Inr s')" by simp
  note v = prepare_qubit_hamiltonian_vars [OF run]
  from a v(1) show fl: "freeze_list s' = []" by simp
  from a v(5) show "energy_shift s' = 0" by simp
  from fl v(3) show "num_particles s' = num_particles s" by simp
  from fl v(4) show "num_spin_orbitals s' = num_spin_orbitals s - int (length (remove_list s'))"
    by simp
next
  fix f l out
  assume a: "remove_list s = [] \<and> prepare_qubit_hamiltonian lib s = (t, r)"
  show "(Call_fermion_mode_elimination f l, out) \<notin> set t"
  proof
    assume "(Call_fermion_mode_elimination f l, out) \<in> set t"
    with a have "remove_list s \<noteq> []"
      by (elim conjE elimination_event)
    with a show False by simp
  qed
next
  fix s'
  assume a: "remove_list s = [] \<and> prepare_qubit_hamiltonian lib s = (t, r)" and r: "r = Inr s'"
  then have run: "prepare_qubit_hamiltonian lib s = (t, Inr s')" by simp
  note v = prepare_qubit_hamiltonian_vars [OF run]
  from a v(2) show rl: "remove_list s' = []" by simp
  from rl v(4) show "num_spin_orbitals s' = num_spin_orbitals s - int (length (freeze_list s'))"
    by simp
next
  assume a: "freeze_list s = [] \<and> remove_list s = []
              \<and> prepare_qubit_hamiltonian lib s = (t, Inr s')"
  then have run: "prepare_qubit_hamiltonian lib s = (t, Inr s')" by simp
  note v = prepare_qubit_hamiltonian_vars [OF run]
  from a v(7) show "FermionicOperator lib (h1 s) (h2 s) = Inr (ferOp s')" by simp
  from a v(1,2,4) show "num_spin_orbitals s' = num_spin_orbitals s" by simp
qed

theorem empty_lists_are_no_ops_witness:
  "(let s1 = \<lparr> molecule = lih, freeze_list = [], remove_list = [],
                 map_type = ''jordan_wigner'', h1 = 12, h2 = 12,
                 num_particles = 4, num_spin_orbitals = 12,
                 energy_shift = 0, qubit_reduction = False, ferOp = 12 \<rparr>
    in freezing_stage mode_counting s1 = ([], Inr s1)
       \<and> elimination_stage mode_counting s1 = ([], Inr s1))
   \<and> freeze_list (molecule_vars lih [] [] ''jordan_wigner'') = []
   \<and> remove_list (molecule_vars lih [] [] ''jordan_wigner'') = []
   \<and> fst (prepare_qubit_hamiltonian mode_counting (molecule_vars lih [] [] ''jordan_wigner''))
       = [(Call_FermionicOperator 12 12, None), (Call_mapping 12 ''jordan_wigner'', None),
          (Call_chop 12, None), (Call_print_details 12, None)]
   \<and> (case snd (prepare_qubit_hamiltonian mode_counting
                   (molecule_vars lih [] [] ''jordan_wigner'')) of
         Inl e \<Rightarrow> False
       | Inr s' \<Rightarrow> energy_shift s' = 0 \<and> num_particles s' = 4 \<and> num_spin_orbitals s' = 12
                  \<and> ferOp s' = 12)"
proof -
  let ?s = "molecule_vars lih [] [] ''jordan_wigner''"
  let ?s1 = "\<lparr> molecule = lih, freeze_list = [], remove_list = [],
                 map_type = ''jordan_wigner'', h1 = 12, h2 = 12,
                 num_particles = 4, num_spin_orbitals = 12,
                 energy_shift = 0 :: int, qubit_reduction = False, ferOp = 12 :: nat \<rparr>"
  have e: "freeze_list ?s = []" "remove_list ?s = []"
    and v: "num_particles ?s = 4" "num_spin_orbitals ?s = 12" "h1 ?s = 12" "h2 ?s = 12"
    by (simp_all add: molecule_vars_def lih_def)
  obtain t s' where run: "prepare_qubit_hamiltonian mode_counting ?s = (t, Inr s')"
    and t: "t = [(Call_FermionicOperator 12 12, None), (Call_mapping 12 ''jordan_wigner'', None),
          (Call_chop 12, None), (Call_print_details 12, None)]"
    by (simp add: double_defs)
  have op: "FermionicOperator mode_counting 12 12 = Inr 12"
    by (simp add: mode_counting_def)
  note inst = empty_lists_are_no_ops [where lib = mode_counting and ?s1.0 = ?s1 and s = ?s
      and t = t and r = "Inr s'" and s' = s']
  from inst have stages: "freezing_stage mode_counting ?s1 = ([], Inr ?s1)"
    "elimination_stage mode_counting ?s1 = ([], Inr ?s1)"
    by simp_all
  from inst e run
  have "energy_shift s' = 0" and "num_particles s' = num_particles ?s"
    and "num_spin_orbitals s' = num_spin_orbitals ?s"
    and "FermionicOperator mode_counting (h1 ?s) (h2 ?s) = Inr (ferOp s')"
    by simp_all
  with e run t v op stages show ?thesis by (simp add: Let_def)
qed

text \<open>
  C9. The freezing stage lowers the particle count by the length of the freeze list it
  applies, the mirrored one; the elimination stage leaves the particle count as it is. Over
  cell 4 the count drops by the length of the mirrored freeze list, twice that of the raw
  one: from 4 to 2 for the notebook's lists.
\<close>

theorem num_particles_reduced:
  fixes lib :: "('v, 'e::zero, 'x) library"
  shows "(freezing_stage lib s1 = (t1, Inr s2) \<longrightarrow>
            num_particles s2 = num_particles s1 - int (length (freeze_list s1)))
       \<and> (elimination_stage lib s1 = (t1, Inr s2) \<longrightarrow> num_particles s2 = num_particles s1)
       \<and> (prepare_qubit_hamiltonian lib s = (t, Inr s') \<longrightarrow>
            num_particles s' = num_particles s - int (length (freeze_list s'))
            \<and> length (freeze_list s') = 2 * length (freeze_list s))"
proof (intro conjI impI)
  show "num_particles s2 = num_particles s1 - int (length (freeze_list s1))"
    if "freezing_stage lib s1 = (t1, Inr s2)"
    by (rule freezing_stage_Inr(1) [OF that])
  show "num_particles s2 = num_particles s1" if "elimination_stage lib s1 = (t1, Inr s2)"
    by (rule elimination_stage_Inr(1) [OF that])
next
  assume run: "prepare_qubit_hamiltonian lib s = (t, Inr s')"
  show "num_particles s' = num_particles s - int (length (freeze_list s'))"
    by (rule prepare_qubit_hamiltonian_vars(3) [OF run])
  show "length (freeze_list s') = 2 * length (freeze_list s)"
    by (rule prepare_qubit_hamiltonian_vars(1) [OF run])
qed

theorem num_particles_reduced_witness:
  "(let s1 = \<lparr> molecule = lih, freeze_list = [0, 6], remove_list = [2, 3, 7, 8],
                 map_type = ''parity'', h1 = 12, h2 = 12,
                 num_particles = 4, num_spin_orbitals = 12,
                 energy_shift = 0, qubit_reduction = True, ferOp = 12 \<rparr>
    in (case snd (freezing_stage mode_counting s1) of
          Inl e \<Rightarrow> False | Inr s2 \<Rightarrow> num_particles s2 = 2)
     \<and> (case snd (elimination_stage mode_counting s1) of
          Inl e \<Rightarrow> False | Inr s2 \<Rightarrow> num_particles s2 = 4))
   \<and> num_particles notebook_vars = 4
   \<and> (case snd (prepare_qubit_hamiltonian mode_counting notebook_vars) of
         Inl e \<Rightarrow> False
       | Inr s' \<Rightarrow> freeze_list s' = [0, 6] \<and> num_particles s' = 2)"
proof -
  let ?s1 = "\<lparr> molecule = lih, freeze_list = [0, 6], remove_list = [2, 3, 7, 8],
                 map_type = ''parity'', h1 = 12, h2 = 12,
                 num_particles = 4, num_spin_orbitals = 12,
                 energy_shift = 0 :: int, qubit_reduction = True, ferOp = 12 :: nat \<rparr>"
  obtain t s' where run: "prepare_qubit_hamiltonian mode_counting notebook_vars = (t, Inr s')"
    and fl: "freeze_list s' = [0, 6]"
    by (simp add: double_defs)
  obtain t2 s2 where fr: "freezing_stage mode_counting ?s1 = (t2, Inr s2)"
    by (simp add: double_defs)
  obtain t3 s3 where el: "elimination_stage mode_counting ?s1 = (t3, Inr s3)"
    by (simp add: double_defs)
  have v: "num_particles notebook_vars = 4"
    by (simp add: notebook_vars_def molecule_vars_def lih_def)
  from num_particles_reduced [where lib = mode_counting and ?s1.0 = ?s1 and ?t1.0 = t2
      and ?s2.0 = s2 and s = notebook_vars and t = t and s' = s'] run fr
  have a: "num_particles s' = num_particles notebook_vars - int (length (freeze_list s'))"
    and b: "num_particles s2 = 2"
    by simp_all
  from num_particles_reduced [where lib = mode_counting and ?s1.0 = ?s1 and ?t1.0 = t3
      and ?s2.0 = s3] el
  have c: "num_particles s3 = 4"
    by simp
  from a b c run fr el fl v show ?thesis by (simp add: Let_def)
qed

lemma mapping_stage_reached:
  fixes lib :: "('v, 'e::zero, 'x) library"
  assumes run: "prepare_qubit_hamiltonian lib s = (t, r)"
  obtains (before) e where "\<forall>ev\<in>set t. reduction_call (fst ev)" and "r = Inl e"
  | (reached) t0 s3 t4 where "t = t0 @ t4" and "qubit_mapping lib s3 = (t4, r)"
      and "\<forall>ev\<in>set t0. reduction_call (fst ev)"
      and "map_type s3 = map_type s" and "qubit_reduction s3 = (map_type s = ''parity'')"
      and "num_particles s3 = num_particles s - 2 * int (length (freeze_list s))"
proof -
  from run show thesis
  proof (cases rule: prepare_qubit_hamiltonian_cases)
    case (fermionic e)
    with fermionic_hamiltonian_trace [OF fermionic(1)] have "\<forall>ev\<in>set t. reduction_call (fst ev)"
      by fastforce
    then show ?thesis using fermionic(2) by (rule before)
  next
    case (freezing t1 s1 t2 e)
    note p = reduction_prefix [OF freezing(1,2)]
    from freezing(3) p(1,5) have "\<forall>ev\<in>set t. reduction_call (fst ev)"
      by (auto split: if_splits)
    then show ?thesis using freezing(4) by (rule before)
  next
    case (elimination t1 s1 t2 s2 t3 e)
    note p = reduction_prefix [OF elimination(1,2)]
    note q = elimination_stage_trace [OF elimination(3)]
    from elimination(4) p(1,5) q have "\<forall>ev\<in>set t. reduction_call (fst ev)"
      by (auto split: if_splits)
    then show ?thesis using elimination(5) by (rule before)
  next
    case (mapping t1 s1 t2 s2 t3 s3 t4)
    note p = reduction_prefix [OF mapping(1,2)]
    note q = elimination_stage_trace [OF mapping(3)]
    note a = fermionic_hamiltonian_Inr [OF mapping(1)] and b = freezing_stage_Inr [OF mapping(2)]
      and c = elimination_stage_Inr [OF mapping(3)]
    note len = prepare_full_idx_lengths [OF a(1)]
    from p(1,5) q have 0: "\<forall>ev\<in>set (t1 @ t2 @ t3). reduction_call (fst ev)"
      by (auto split: if_splits)
    have 1: "map_type s3 = map_type s" by (simp add: a b c)
    have 2: "qubit_reduction s3 = (map_type s = ''parity'')" by (simp add: a b c)
    have 3: "num_particles s3 = num_particles s - 2 * int (length (freeze_list s))"
      using len by (simp add: a b c)
    from mapping(5) have "t = (t1 @ t2 @ t3) @ t4" by simp
    from this mapping(4) 0 1 2 3 show ?thesis by (rule reached)
  qed
qed

text \<open>
  C10. In cell 4 the two-qubit reduction is invoked exactly when the mapping type is
  \<open>'parity'\<close> and the mapping has returned; \<open>qubit_reduction\<close> is true exactly for
  \<open>'parity'\<close>. When the mapping has returned an operator, that operator goes to the
  reduction for \<open>'parity'\<close>, with the particle count left by the freezing, and the reduced
  operator goes to \<open>chop\<close>; for every other mapping type the mapped operator itself goes
  to \<open>chop\<close>.
\<close>

theorem two_qubit_reduction_iff_parity:
  fixes lib :: "('v, 'e::zero, 'x) library"
  assumes run: "prepare_qubit_hamiltonian lib s = (t, r)"
  defines "np \<equiv> num_particles s - 2 * int (length (freeze_list s))"
  shows "((\<exists>q n out. (Call_two_qubit_reduction q n, out) \<in> set t)
            \<longleftrightarrow> map_type s = ''parity'' \<and> (\<exists>f. (Call_mapping f (map_type s), None) \<in> set t))
       \<and> (\<forall>s'. r = Inr s' \<longrightarrow> qubit_reduction s' = (map_type s = ''parity''))
       \<and> (\<forall>f mt. (Call_mapping f mt, None) \<in> set t \<longrightarrow>
            (\<exists>q. mapping lib f mt = Inr q \<and> mt = map_type s
               \<and> (if map_type s = ''parity''
                  then (Call_two_qubit_reduction q np, raised (two_qubit_reduction lib q np)) \<in> set t
                     \<and> (\<forall>q'. two_qubit_reduction lib q np = Inr q'
                           \<longrightarrow> (Call_chop q', raised (chop lib q')) \<in> set t)
                  else (Call_chop q, raised (chop lib q)) \<in> set t)))"
proof -
  from run show ?thesis
  proof (cases rule: mapping_stage_reached)
    case (before e)
    then have "\<forall>q n out. (Call_two_qubit_reduction q n, out) \<notin> set t"
      and "\<forall>f mt out. (Call_mapping f mt, out) \<notin> set t"
      by fastforce+
    moreover from before have "\<forall>s'. r \<noteq> Inr s'" by simp
    ultimately show ?thesis by blast
  next
    case (reached t0 s3 t4)
    note tr = qubit_mapping_trace [OF reached(2)]
    have pre: "(Call_two_qubit_reduction q n, out) \<notin> set t0"
      "(Call_mapping f mt, out) \<notin> set t0" "(Call_chop q, out) \<notin> set t0" for q n out f mt
      using reached(3) by fastforce+
    have vars: "\<forall>s'. r = Inr s' \<longrightarrow> qubit_reduction s' = (map_type s = ''parity'')"
      using qubit_mapping_Inr(6) [of lib s3 t4] reached(2,5) by auto
    show ?thesis
    proof (cases "mapping lib (ferOp s3) (map_type s3)")
      case (Inl e)
      with tr have "t4 = [(Call_mapping (ferOp s3) (map_type s3), Some e)]" by simp
      with reached(1) pre vars show ?thesis by auto
    next
      case (Inr q)
      show ?thesis
      proof (cases "map_type s = ''parity''")
        case True
        with reached(5) have qr: "qubit_reduction s3" by simp
        show ?thesis
        proof (cases "two_qubit_reduction lib q (num_particles s3)")
          case (Inl e)
          with tr Inr qr have "t4 = [(Call_mapping (ferOp s3) (map_type s3), None),
                                 (Call_two_qubit_reduction q (num_particles s3), Some e)]"
            by simp
          with reached(1,4,6) pre vars True Inr Inl show ?thesis
            unfolding np_def by (auto simp: raised_def)
        next
          case q': (Inr q')
          with tr Inr qr obtain ts where "t4 = (Call_mapping (ferOp s3) (map_type s3), None)
                                  # (Call_two_qubit_reduction q (num_particles s3), None)
                                  # (Call_chop q', raised (chop lib q')) # ts"
            and "\<forall>ev\<in>set ts. \<exists>x. fst ev = Call_print_details x"
            by auto
          with reached(1,4,6) pre vars True Inr q' show ?thesis
            unfolding np_def by (auto simp: raised_def)
        qed
      next
        case False
        with reached(5) have qr: "\<not> qubit_reduction s3" by simp
        with tr Inr obtain ts where "t4 = (Call_mapping (ferOp s3) (map_type s3), None)
                                  # (Call_chop q, raised (chop lib q)) # ts"
            and "\<forall>ev\<in>set ts. \<exists>x. fst ev = Call_print_details x"
          by auto
        with reached(1,4,6) pre vars False Inr show ?thesis
          unfolding np_def by (auto simp: raised_def)
      qed
    qed
  qed
qed

theorem two_qubit_reduction_iff_parity_witness:
  "map_type notebook_vars = ''parity''
   \<and> (Call_mapping 6 ''parity'', None)
        \<in> set (fst (prepare_qubit_hamiltonian mode_counting notebook_vars))
   \<and> (Call_two_qubit_reduction 6 2, None)
        \<in> set (fst (prepare_qubit_hamiltonian mode_counting notebook_vars))
   \<and> (Call_chop 4, None) \<in> set (fst (prepare_qubit_hamiltonian mode_counting notebook_vars))
   \<and> (Call_mapping 12 ''jordan_wigner'', None)
        \<in> set (fst (prepare_qubit_hamiltonian mode_counting
                       (molecule_vars lih [] [] ''jordan_wigner'')))
   \<and> (Call_chop 12, None)
        \<in> set (fst (prepare_qubit_hamiltonian mode_counting
                       (molecule_vars lih [] [] ''jordan_wigner'')))"
proof -
  let ?jw = "molecule_vars lih [] [] ''jordan_wigner''"
  obtain t r where run: "prepare_qubit_hamiltonian mode_counting notebook_vars = (t, r)"
    and ev: "(Call_mapping 6 ''parity'', None) \<in> set t"
    by (simp add: double_defs)
  obtain t' r' where run': "prepare_qubit_hamiltonian mode_counting ?jw = (t', r')"
    and ev': "(Call_mapping 12 ''jordan_wigner'', None) \<in> set t'"
    by (simp add: double_defs)
  have v: "map_type notebook_vars = ''parity''" "num_particles notebook_vars = 4"
    "freeze_list notebook_vars = [0]" "map_type ?jw = ''jordan_wigner''"
    by (simp_all add: notebook_vars_def molecule_vars_def lih_def)
  have lib: "mapping mode_counting 6 ''parity'' = Inr 6"
    "two_qubit_reduction mode_counting 6 2 = Inr 4" "chop mode_counting 4 = Inr 4"
    "mapping mode_counting 12 ''jordan_wigner'' = Inr 12" "chop mode_counting 12 = Inr 12"
    by (simp_all add: mode_counting_def)
  note c = two_qubit_reduction_iff_parity [OF run, simplified v, simplified]
  from c ev
  have "\<exists>q. mapping mode_counting 6 ''parity'' = Inr q
          \<and> (Call_two_qubit_reduction q 2, raised (two_qubit_reduction mode_counting q 2)) \<in> set t
          \<and> (\<forall>q'. two_qubit_reduction mode_counting q 2 = Inr q'
                \<longrightarrow> (Call_chop q', raised (chop mode_counting q')) \<in> set t)"
    by blast
  then have a: "(Call_two_qubit_reduction 6 2, None) \<in> set t" and b: "(Call_chop 4, None) \<in> set t"
    by (auto simp: lib raised_def)
  note c' = two_qubit_reduction_iff_parity [OF run', simplified v, simplified]
  from c' ev'
  have "\<exists>q. mapping mode_counting 12 ''jordan_wigner'' = Inr q
          \<and> (Call_chop q, raised (chop mode_counting q)) \<in> set t'"
    by blast
  then have c: "(Call_chop 12, None) \<in> set t'"
    by (auto simp: lib raised_def)
  from a b c ev ev' run run' v show ?thesis by simp
qed

end
